theory Spec2Isabelle
  imports Main "HOL-Library.AList"
begin

text \<open>
  The program \<open>main.py\<close> keeps contacts (id, name, age, phone, email) in one
  collection of a document database and offers, in a menu loop on the console, to
  create a contact, search one by name, show all, update one field and delete one.

  Its functions are embedded as functions on the state of a run: the lines of standard
  input not yet read, what has been printed, and the collection. An exception is a
  result \<open>Inl\<close>. The input is a finite list of lines and \<open>input\<close> raises \<open>EOFError\<close>
  at its end, so every loop of the program, reading one line per round, is a total
  function.
\<close>

section \<open>Strings and the built-ins of Python the program calls\<close>

text \<open>
  A Python \<open>str\<close> is modelled as a \<open>string\<close>, one \<open>char\<close> per code point below 256.
  \<open>str.lower\<close> maps the upper-case letters of that range (A to Z, and U+00C0 to U+00DE
  without the multiplication sign U+00D7) to the letter 32 code points above.
\<close>

definition lower_char :: "char \<Rightarrow> char" where
  "lower_char c =
     (let n = (of_char c :: nat)
      in if (65 \<le> n \<and> n \<le> 90) \<or> (192 \<le> n \<and> n \<le> 222 \<and> n \<noteq> 215)
         then char_of (n + 32) else c)"

definition lower :: "string \<Rightarrow> string" where
  "lower s = map lower_char s"

text \<open>
  \<open>str.strip()\<close> removes leading and trailing white space: the characters for which
  \<open>str.isspace\<close> holds (tab to carriage return, the separators U+001C to U+001F, the
  space, U+0085 and U+00A0).
\<close>

definition isspace :: "char \<Rightarrow> bool" where
  "isspace c =
     (let n = (of_char c :: nat)
      in (9 \<le> n \<and> n \<le> 13) \<or> (28 \<le> n \<and> n \<le> 32) \<or> n = 133 \<or> n = 160)"

definition strip :: "string \<Rightarrow> string" where
  "strip s = rev (dropWhile isspace (rev (dropWhile isspace s)))"

datatype error = ValueError | EOFError | DuplicateKeyError | KeyError | AttributeError

text \<open>
  \<open>int(s)\<close> on a string, base 10 (Python 3.11). The white space dropped around the
  literal is not that of \<open>str.strip\<close>: it is tab to carriage return, the space, U+0085
  and U+00A0, without the separators U+001C to U+001F. One sign is allowed, then decimal
  digits with single underscores between digits; a literal of more than 4300 digits is
  refused (\<open>sys.int_info.default_max_str_digits\<close>). Anything else raises \<open>ValueError\<close>.
\<close>

definition int_space :: "char \<Rightarrow> bool" where
  "int_space c =
     (let n = (of_char c :: nat)
      in (9 \<le> n \<and> n \<le> 13) \<or> n = 32 \<or> n = 133 \<or> n = 160)"

definition default_max_str_digits :: nat where
  "default_max_str_digits = 4300"

definition digit_of :: "char \<Rightarrow> nat option" where
  "digit_of c =
     (let n = (of_char c :: nat) in if 48 \<le> n \<and> n \<le> 57 then Some (n - 48) else None)"

fun digits_from :: "nat \<Rightarrow> string \<Rightarrow> nat option" where
  "digits_from acc [] = Some acc"
| "digits_from acc [c] =
     (case digit_of c of None \<Rightarrow> None | Some k \<Rightarrow> Some (10 * acc + k))"
| "digits_from acc (c # d # ds) =
     (if c = CHR ''_''
      then (case digit_of d of None \<Rightarrow> None | Some k \<Rightarrow> digits_from (10 * acc + k) ds)
      else (case digit_of c of None \<Rightarrow> None | Some k \<Rightarrow> digits_from (10 * acc + k) (d # ds)))"

definition unsigned_literal :: "string \<Rightarrow> nat option" where
  "unsigned_literal s =
     (if default_max_str_digits < length (filter (\<lambda>c. c \<noteq> CHR ''_'') s) then None
      else case s of
             [] \<Rightarrow> None
           | c # cs \<Rightarrow> (case digit_of c of None \<Rightarrow> None | Some k \<Rightarrow> digits_from k cs))"

definition py_int :: "string \<Rightarrow> error + int" where
  "py_int s =
     (let t = rev (dropWhile int_space (rev (dropWhile int_space s)));
          r = (case t of
                 [] \<Rightarrow> None
               | c # cs \<Rightarrow>
                   if c = CHR ''-'' then map_option (\<lambda>n. - int n) (unsigned_literal cs)
                   else if c = CHR ''+'' then map_option int (unsigned_literal cs)
                   else map_option int (unsigned_literal t))
      in case r of None \<Rightarrow> Inl ValueError | Some i \<Rightarrow> Inr i)"

section \<open>Documents and the collection\<close>

text \<open>
  A document is a Python \<open>dict\<close> with string keys, kept as an association list in the
  order of its fields. The program stores integers and strings only.
\<close>

datatype val = IntV int | StrV string

type_synonym doc = "(string \<times> val) list"

type_synonym collection = "doc list"

text \<open>Keys constants (lines 13 to 17).\<close>

definition ID_KEY :: string where "ID_KEY = ''_id''"
definition NAME_KEY :: string where "NAME_KEY = ''name''"
definition AGE_KEY :: string where "AGE_KEY = ''age''"
definition PHONE_KEY :: string where "PHONE_KEY = ''phone''"
definition EMAIL_KEY :: string where "EMAIL_KEY = ''email''"

text \<open>
  The collection \<open>db_contacts\<close> is an object of the \<open>pymongo\<close> library, which is not
  part of the repository. The operations the program calls on it are modelled on a
  list of documents in the order of insertion; every filter of the program is an
  equality on one field.
\<close>

record insert_one_result =
  insert_acknowledged :: bool
  inserted_id :: "val option"

record update_result =
  update_acknowledged :: bool
  matched_count :: nat
  modified_count :: nat
  upserted_id :: "val option"

definition matches :: "string \<times> val \<Rightarrow> doc \<Rightarrow> bool" where
  "matches flt d = (map_of d (fst flt) = Some (snd flt))"

definition insert_one :: "collection \<Rightarrow> doc \<Rightarrow> error + insert_one_result \<times> collection" where
  \<comment> \<open>Modelled from the spec: \<open>Collection.insert_one\<close> of pymongo, "insert with
      duplicate-key rejection on a designated unique field (id)". The client of line 8
      has the default write concern, so the write is acknowledged.\<close>
  "insert_one c d =
     (if \<exists>d' \<in> set c. map_of d' ID_KEY = map_of d ID_KEY then Inl DuplicateKeyError
      else Inr (\<lparr>insert_acknowledged = True, inserted_id = map_of d ID_KEY\<rparr>, c @ [d]))"

definition find_one :: "collection \<Rightarrow> string \<times> val \<Rightarrow> doc option" where
  \<comment> \<open>Modelled from the spec: \<open>Collection.find_one\<close> of pymongo, "equality-filtered
      single-document find"; the first match in the order of the collection, \<open>None\<close>
      when no document matches.\<close>
  "find_one c flt = List.find (matches flt) c"

definition find_all :: "collection \<Rightarrow> doc list" where
  \<comment> \<open>Modelled from the spec: \<open>Collection.find()\<close> of pymongo without a filter, the
      cursor over all documents, drained by the caller.\<close>
  "find_all c = c"

definition count_documents :: "collection \<Rightarrow> nat" where
  \<comment> \<open>Modelled from the spec: \<open>Collection.count_documents({})\<close> of pymongo, "document
      count".\<close>
  "count_documents c = length c"

fun update_first :: "string \<times> val \<Rightarrow> (doc \<Rightarrow> doc) \<Rightarrow> collection \<Rightarrow> collection" where
  "update_first flt f [] = []"
| "update_first flt f (d # ds) =
     (if matches flt d then f d # ds else d # update_first flt f ds)"

definition update_one :: "collection \<Rightarrow> string \<times> val \<Rightarrow> string \<times> val \<Rightarrow> update_result \<times> collection" where
  \<comment> \<open>Modelled from the spec: \<open>Collection.update_one(filter, {"$set": {field: value}})\<close>
      of pymongo, "single-field update of one document identified by an equality
      filter": the first match gets the field set (replaced in place, appended when
      the document has no such field); no upsert.\<close>
  "update_one c flt upd =
     (case find_one c flt of
        None \<Rightarrow>
          (\<lparr>update_acknowledged = True, matched_count = 0, modified_count = 0,
            upserted_id = None\<rparr>, c)
      | Some d \<Rightarrow>
          (\<lparr>update_acknowledged = True, matched_count = 1,
            modified_count = (if AList.update (fst upd) (snd upd) d = d then 0 else 1),
            upserted_id = None\<rparr>,
           update_first flt (AList.update (fst upd) (snd upd)) c))"

fun delete_first :: "string \<times> val \<Rightarrow> collection \<Rightarrow> collection" where
  "delete_first flt [] = []"
| "delete_first flt (d # ds) = (if matches flt d then ds else d # delete_first flt ds)"

definition delete_one :: "collection \<Rightarrow> string \<times> val \<Rightarrow> collection" where
  \<comment> \<open>Modelled from the spec: \<open>Collection.delete_one\<close> of pymongo, "single-document
      delete identified by an equality filter": the first match is removed.\<close>
  "delete_one c flt = delete_first flt c"

section \<open>The console, the global collection and the calls made on it\<close>

text \<open>
  What \<open>print\<close> writes is kept as the values handed to the format string, not as the
  rendered text: \<open>Line\<close> is a constant message, the other constructors stand for the
  f-strings of the program.
\<close>

datatype out =
    Prompt string
  | Line string
  | Created "val option"
  | Id_exists int
  | Card val string val val val
  | Not_found string
  | Field_unknown string
  | Updated nat "val option"
  | Raw_result nat nat

datatype call =
    Insert_one doc
  | Find_one "string \<times> val"
  | Count_documents
  | Find
  | Update_one "string \<times> val" "string \<times> val"
  | Delete_one "string \<times> val"

text \<open>
  The state of a run: the lines still to be read from standard input, what has been
  printed, the documents of \<open>db_contacts\<close>, and the calls made on \<open>db_contacts\<close> so
  far (a record of the run, read by no operation).
\<close>

record world =
  stdin :: "string list"
  stdout :: "out list"
  db_contacts :: collection
  calls :: "call list"

type_synonym 'a io = "world \<Rightarrow> (error + 'a) \<times> world"

definition and_then :: "'a io \<Rightarrow> ('a \<Rightarrow> 'b io) \<Rightarrow> 'b io" where
  \<comment> \<open>Sequencing of two statements: an exception of the first skips the second.\<close>
  "and_then m f w = (case m w of (Inl e, w') \<Rightarrow> (Inl e, w') | (Inr x, w') \<Rightarrow> f x w')"

definition print :: "out \<Rightarrow> world \<Rightarrow> world" where
  "print x w = w\<lparr>stdout := stdout w @ [x]\<rparr>"

definition input :: "string \<Rightarrow> string io" where
  \<comment> \<open>\<open>input(prompt)\<close>: writes the prompt, reads one line; \<open>EOFError\<close> at the end of input.\<close>
  "input prompt w =
     (let w' = print (Prompt prompt) w
      in case stdin w' of
           [] \<Rightarrow> (Inl EOFError, w')
         | l # ls \<Rightarrow> (Inr l, w'\<lparr>stdin := ls\<rparr>))"

definition db_insert_one :: "doc \<Rightarrow> insert_one_result io" where
  "db_insert_one d w =
     (let w' = w\<lparr>calls := calls w @ [Insert_one d]\<rparr>
      in case insert_one (db_contacts w') d of
           Inl e \<Rightarrow> (Inl e, w')
         | Inr (r, c) \<Rightarrow> (Inr r, w'\<lparr>db_contacts := c\<rparr>))"

definition db_find_one :: "string \<times> val \<Rightarrow> world \<Rightarrow> doc option \<times> world" where
  "db_find_one flt w = (find_one (db_contacts w) flt, w\<lparr>calls := calls w @ [Find_one flt]\<rparr>)"

definition db_count_documents :: "world \<Rightarrow> nat \<times> world" where
  "db_count_documents w =
     (count_documents (db_contacts w), w\<lparr>calls := calls w @ [Count_documents]\<rparr>)"

definition db_find :: "world \<Rightarrow> doc list \<times> world" where
  "db_find w = (find_all (db_contacts w), w\<lparr>calls := calls w @ [Find]\<rparr>)"

definition db_update_one :: "string \<times> val \<Rightarrow> string \<times> val \<Rightarrow> world \<Rightarrow> update_result \<times> world" where
  "db_update_one flt upd w =
     (let (r, c) = update_one (db_contacts w) flt upd
      in (r, w\<lparr>db_contacts := c, calls := calls w @ [Update_one flt upd]\<rparr>))"

definition db_delete_one :: "string \<times> val \<Rightarrow> world \<Rightarrow> world" where
  "db_delete_one flt w =
     w\<lparr>db_contacts := delete_one (db_contacts w) flt, calls := calls w @ [Delete_one flt]\<rparr>"

section \<open>The operations of the program\<close>

text \<open>
  The two loops of \<open>create_contact\<close> (lines 27 to 32 and 36 to 41) differ in the prompt
  and in the message only: read a line, return its integer, or print the message and
  read again when \<open>int\<close> raises \<open>ValueError\<close>.
\<close>

function int_input_loop :: "string \<Rightarrow> string \<Rightarrow> int io" where
  "int_input_loop prompt msg w =
     (case input prompt w of
        (Inl e, w') \<Rightarrow> (Inl e, w')
      | (Inr l, w') \<Rightarrow>
          (case py_int l of
             Inr n \<Rightarrow> (Inr n, w')
           | Inl e \<Rightarrow>
               if e = ValueError then int_input_loop prompt msg (print (Line msg) w')
               else (Inl e, w')))"
  by pat_completeness auto
termination
  by (relation "measure (\<lambda>(prompt, msg, w). length (stdin w))")
     (auto simp: input_def print_def Let_def split: list.splits)

declare int_input_loop.simps [simp del]

text \<open>The \<open>try\<close> statement of lines 45 to 64, with the five values read before it.\<close>

definition create_insert :: "int \<Rightarrow> string \<Rightarrow> int \<Rightarrow> string \<Rightarrow> string \<Rightarrow> unit io" where
  "create_insert ident name age phone email w =
     (case db_insert_one
             [(ID_KEY, IntV ident), (NAME_KEY, StrV name), (AGE_KEY, IntV age),
              (PHONE_KEY, StrV phone), (EMAIL_KEY, StrV email)] w of
        (Inr result, w') \<Rightarrow>
          if insert_acknowledged result
          then (Inr (), print (Created (inserted_id result)) w')
          else (Inr (), print (Line ''Insert not acknowledged.'') w')
      | (Inl e, w') \<Rightarrow>
          if e = DuplicateKeyError then (Inr (), print (Id_exists ident) w')
          else (Inl e, w'))"

definition create_contact :: "unit io" where
  "create_contact =
     and_then (int_input_loop ''Enter ID: '' ''ID must be a number. Please try again.'') (\<lambda>ident.
     and_then (input ''Enter name: '') (\<lambda>l1. let name = lower l1 in
     and_then (int_input_loop ''Enter age: '' ''Age must be a number. Please try again.'') (\<lambda>age.
     and_then (input ''Enter phone number: '') (\<lambda>l2. let phone = lower l2 in
     and_then (input ''Enter email: '') (\<lambda>l3. let email = lower l3 in
     create_insert ident name age phone email)))))"

text \<open>
  \<open>contact[key]\<close> raises \<open>KeyError\<close> on a missing key; \<open>if contact\<close> holds for a
  dictionary that is neither \<open>None\<close> nor empty.
\<close>

definition getitem :: "doc \<Rightarrow> string \<Rightarrow> error + val" where
  "getitem d k = (case map_of d k of None \<Rightarrow> Inl KeyError | Some v \<Rightarrow> Inr v)"

definition truthy :: "doc option \<Rightarrow> bool" where
  "truthy contact = (case contact of None \<Rightarrow> False | Some d \<Rightarrow> d \<noteq> [])"

definition print_contact :: "doc \<Rightarrow> unit io" where
  \<comment> \<open>The f-string reads the five fields in turn; \<open>capitalize\<close> is a method of \<open>str\<close>.\<close>
  "print_contact contact w =
     (case getitem contact ID_KEY of
        Inl e \<Rightarrow> (Inl e, w)
      | Inr i \<Rightarrow>
     (case getitem contact NAME_KEY of
        Inl e \<Rightarrow> (Inl e, w)
      | Inr (IntV _) \<Rightarrow> (Inl AttributeError, w)
      | Inr (StrV name) \<Rightarrow>
     (case getitem contact AGE_KEY of
        Inl e \<Rightarrow> (Inl e, w)
      | Inr a \<Rightarrow>
     (case getitem contact PHONE_KEY of
        Inl e \<Rightarrow> (Inl e, w)
      | Inr p \<Rightarrow>
     (case getitem contact EMAIL_KEY of
        Inl e \<Rightarrow> (Inl e, w)
      | Inr m \<Rightarrow> (Inr (), print (Card i name a p m) w))))))"

definition rule29 :: out where
  "rule29 = Line ''-----------------------------''"

definition rule19 :: out where
  "rule19 = Line ''-------------------''"

text \<open>Lines 82 to 84 of \<open>search_one\<close>: the contact between two rules.\<close>

definition search_found :: "doc \<Rightarrow> unit io" where
  "search_found contact w1 =
     and_then (print_contact contact) (\<lambda>_ w3. (Inr (), print rule29 w3)) (print rule29 w1)"

definition search_one :: "unit io" where
  "search_one =
     and_then (input ''Enter name to search: '') (\<lambda>l. let name = lower l in
     (\<lambda>w. let (contact, w1) = db_find_one (NAME_KEY, StrV name) w
          in if truthy contact then search_found (the contact) w1
             else (Inr (), print (Not_found name) w1)))"

fun show_all_loop :: "doc list \<Rightarrow> unit io" where
  "show_all_loop [] w = (Inr (), w)"
| "show_all_loop (contact # contacts) w =
     and_then (print_contact contact) (\<lambda>_. show_all_loop contacts) (print rule29 w)"

definition show_all :: "unit io" where
  "show_all w =
     (let (n, w1) = db_count_documents w
      in if n = 0
         then (Inr (), print rule29 (print (Line ''No data found.'') (print rule29 w1)))
         else let (contacts, w2) = db_find w1
              in and_then (show_all_loop contacts) (\<lambda>_ w3. (Inr (), print rule29 w3)) w2)"

text \<open>The loop of lines 120 to 136 of \<open>update\<close>: which field to update.\<close>

function update_field_loop :: "string io" where
  "update_field_loop w =
     (case input ''What field do you want to update? '' w of
        (Inl e, w1) \<Rightarrow> (Inl e, w1)
      | (Inr l, w1) \<Rightarrow>
          (let field = strip (lower l)
           in if field = ''id''
              then update_field_loop (print (Line ''You can't modify the ID. (It's immutable!)'') w1)
              else let field = (if field \<in> set [''phone number''] then PHONE_KEY else field);
                       field = (if field \<in> set [''e-mail''] then EMAIL_KEY else field)
                   in if field \<notin> set [NAME_KEY, AGE_KEY, PHONE_KEY, EMAIL_KEY]
                      then update_field_loop (print (Field_unknown field) w1)
                      else (Inr field, w1)))"
  by pat_completeness auto
termination
  by (relation "measure (\<lambda>w. length (stdin w))")
     (auto simp: input_def print_def Let_def split: list.splits)

declare update_field_loop.simps [simp del]

text \<open>The key a line of input selects (lines 121 to 130 of \<open>update\<close>).\<close>

definition field_of :: "string \<Rightarrow> string" where
  "field_of l =
     (let field = strip (lower l);
          field = (if field \<in> set [''phone number''] then PHONE_KEY else field)
      in if field \<in> set [''e-mail''] then EMAIL_KEY else field)"

text \<open>
  The loop of lines 138 to 146 of \<open>update\<close>: the value to store. Its only \<open>break\<close> is
  in the branch of the age.
\<close>

function update_value_loop :: "string \<Rightarrow> val io" where
  "update_value_loop field w =
     (case input ''Enter the value: '' w of
        (Inl e, w1) \<Rightarrow> (Inl e, w1)
      | (Inr l, w1) \<Rightarrow>
          (let v = lower l
           in if field \<in> set [AGE_KEY]
              then (case py_int v of
                      Inr n \<Rightarrow> (Inr (IntV n), w1)
                    | Inl e \<Rightarrow>
                        if e = ValueError
                        then update_value_loop field
                               (print (Line ''Age must be a number. Please try again.'') w1)
                        else (Inl e, w1))
              else update_value_loop field w1))"
  by pat_completeness auto
termination
  by (relation "measure (\<lambda>(field, w). length (stdin w))")
     (auto simp: input_def print_def Let_def split: list.splits)

declare update_value_loop.simps [simp del]

text \<open>Lines 148 to 159 of \<open>update\<close>: the call of \<open>update_one\<close> and its report.\<close>

definition update_store :: "doc \<Rightarrow> string \<Rightarrow> val \<Rightarrow> unit io" where
  "update_store contact field v w6 =
     (case getitem contact ID_KEY of
        Inl e \<Rightarrow> (Inl e, w6)
      | Inr i \<Rightarrow>
          let (result, w7) = db_update_one (ID_KEY, i) (field, v) w6
          in if update_acknowledged result
             then (Inr (),
                   print (Raw_result (matched_count result) (modified_count result))
                     (print (Updated (matched_count result) (upserted_id result)) w7))
             else (Inr (), print (Line ''Insert not acknowledged.'') w7))"

text \<open>Lines 116 to 159 of \<open>update\<close>: what is done with the contact found.\<close>

definition update_found :: "doc \<Rightarrow> unit io" where
  "update_found contact w1 =
     and_then (print_contact contact) (\<lambda>_ w3.
       and_then update_field_loop (\<lambda>field.
       and_then (update_value_loop field) (\<lambda>v.
       update_store contact field v))
         (print rule19 w3))
       (print rule19 w1)"

definition update :: "unit io" where
  "update =
     and_then (input ''Enter name to search: '') (\<lambda>l. let name = lower l in
     (\<lambda>w. let (contact, w1) = db_find_one (NAME_KEY, StrV name) w
          in if \<not> truthy contact then (Inr (), print (Not_found name) w1)
             else update_found (the contact) w1))"

text \<open>Lines 176 to 178 of \<open>delete\<close>: the answer to the confirmation.\<close>

definition delete_confirm :: "doc \<Rightarrow> string \<Rightarrow> unit io" where
  "delete_confirm contact answer w5 =
     (if lower answer \<in> set [''y'', ''yes'']
      then (case getitem contact ID_KEY of
              Inl e \<Rightarrow> (Inl e, w5)
            | Inr i \<Rightarrow>
                (Inr (), print (Line ''Contact deleted.'') (db_delete_one (ID_KEY, i) w5)))
      else (Inr (), w5))"

text \<open>Lines 172 to 178 of \<open>delete\<close>: what is done with the contact found.\<close>

definition delete_found :: "doc \<Rightarrow> unit io" where
  "delete_found contact w1 =
     and_then (print_contact contact) (\<lambda>_ w3.
       and_then (input ''Are you sure you want to delete this contact? (Y/N) > '')
         (delete_confirm contact)
         (print rule19 w3))
       (print rule19 w1)"

definition delete :: "unit io" where
  "delete =
     and_then (input ''Enter name to delete: '') (\<lambda>name w.
       let (contact, w1) = db_find_one (NAME_KEY, StrV name) w
       in if \<not> truthy contact then (Inr (), print (Not_found name) w1)
          else delete_found (the contact) w1)"

text \<open>Options constants (lines 181 to 186).\<close>

definition EXIT_OPT :: int where "EXIT_OPT = 0"
definition CREATE_OPT :: int where "CREATE_OPT = 1"
definition SEARCH_OPT :: int where "SEARCH_OPT = 2"
definition SHOW_ALL_OPT :: int where "SHOW_ALL_OPT = 3"
definition UPDATE_OPT :: int where "UPDATE_OPT = 4"
definition DELETE_OPT :: int where "DELETE_OPT = 5"

definition print_menu :: "world \<Rightarrow> world" where
  "print_menu w =
     print (Line ''  5. Delete'') (print (Line ''  4. Update'') (print (Line ''  3. Show All'')
       (print (Line ''  2. Search'') (print (Line ''  1. Create'') (print (Line ''  0. Exit'')
         (print (Line ''Menu:'') w))))))"

section \<open>One step of each loop; the menu loop ends\<close>

lemma input_Nil: "stdin w = [] \<Longrightarrow> input p w = (Inl EOFError, w\<lparr>stdout := stdout w @ [Prompt p]\<rparr>)"
  by (simp add: input_def print_def)

lemma input_Cons:
  "stdin w = l # ls \<Longrightarrow> input p w = (Inr l, w\<lparr>stdin := ls, stdout := stdout w @ [Prompt p]\<rparr>)"
  by (simp add: input_def print_def)

lemma py_int_error: "py_int s = Inl e \<Longrightarrow> e = ValueError"
  by (auto simp: py_int_def Let_def split: option.splits)

lemma int_input_loop_Nil:
  "stdin w = [] \<Longrightarrow> int_input_loop p m w = (Inl EOFError, w\<lparr>stdout := stdout w @ [Prompt p]\<rparr>)"
  by (subst int_input_loop.simps) (simp add: input_Nil)

lemma int_input_loop_accept:
  "stdin w = l # ls \<Longrightarrow> py_int l = Inr n \<Longrightarrow>
   int_input_loop p m w = (Inr n, w\<lparr>stdin := ls, stdout := stdout w @ [Prompt p]\<rparr>)"
  by (subst int_input_loop.simps) (simp add: input_Cons)

lemma int_input_loop_retry:
  "stdin w = l # ls \<Longrightarrow> py_int l = Inl e \<Longrightarrow>
   int_input_loop p m w =
   int_input_loop p m (w\<lparr>stdin := ls, stdout := stdout w @ [Prompt p, Line m]\<rparr>)"
  by (subst int_input_loop.simps) (auto simp: input_Cons print_def dest: py_int_error)

text \<open>
  An operation is tame when it puts no line back on standard input and never ends in
  \<open>ValueError\<close>. The menu loop reads one line per round and calls tame operations,
  so it ends with the input.
\<close>

definition tame :: "'a io \<Rightarrow> bool" where
  "tame m \<longleftrightarrow> (\<forall>w. length (stdin (snd (m w))) \<le> length (stdin w) \<and> fst (m w) \<noteq> Inl ValueError)"

lemma tameI:
  "(\<And>w. length (stdin (snd (m w))) \<le> length (stdin w)) \<Longrightarrow> (\<And>w. fst (m w) \<noteq> Inl ValueError) \<Longrightarrow> tame m"
  by (simp add: tame_def)

lemma tame_stdin: "tame m \<Longrightarrow> m w = (r, w') \<Longrightarrow> length (stdin w') \<le> length (stdin w)"
  by (auto simp: tame_def dest: spec [of _ w])

lemma tame_and_then: "tame m \<Longrightarrow> (\<And>x. tame (f x)) \<Longrightarrow> tame (and_then m f)"
  unfolding tame_def
proof (intro allI)
  fix w
  assume m: "\<forall>w. length (stdin (snd (m w))) \<le> length (stdin w) \<and> fst (m w) \<noteq> Inl ValueError"
    and f: "\<And>x. \<forall>w. length (stdin (snd (f x w))) \<le> length (stdin w) \<and> fst (f x w) \<noteq> Inl ValueError"
  obtain a w1 where mw: "m w = (a, w1)" by (cases "m w")
  from m mw have 1: "length (stdin w1) \<le> length (stdin w)" "a \<noteq> Inl ValueError"
    by (auto dest: spec [of _ w])
  show "length (stdin (snd (and_then m f w))) \<le> length (stdin w) \<and> fst (and_then m f w) \<noteq> Inl ValueError"
  proof (cases a)
    case (Inl e)
    with mw 1 show ?thesis by (simp add: and_then_def)
  next
    case (Inr x)
    with mw have "and_then m f w = f x w1" by (simp add: and_then_def)
    with f [of x] 1 show ?thesis by (auto dest: spec [of _ w1] intro: order_trans)
  qed
qed

lemma tame_input: "tame (input p)"
  by (rule tameI) (auto simp: input_def Let_def print_def split: list.splits)

lemma tame_int_input_loop: "tame (int_input_loop p m)"
proof -
  have "length (stdin (snd (int_input_loop p m w))) \<le> length (stdin w)
        \<and> fst (int_input_loop p m w) \<noteq> Inl ValueError" for w
  proof (induction xs \<equiv> "stdin w" arbitrary: w)
    case Nil
    then show ?case by (simp add: int_input_loop_Nil)
  next
    case (Cons l ls)
    then have st: "stdin w = l # ls" by simp
    show ?case
    proof (cases "py_int l")
      case (Inr n)
      with st show ?thesis by (simp add: int_input_loop_accept [of w l ls])
    next
      case (Inl e)
      with st Cons(1) [of "w\<lparr>stdin := ls, stdout := stdout w @ [Prompt p, Line m]\<rparr>"]
      show ?thesis by (simp add: int_input_loop_retry [of w l ls])
    qed
  qed
  then show ?thesis by (simp add: tame_def)
qed


lemma stdin_print [simp]: "stdin (print x w) = stdin w"
  by (simp add: print_def)

lemma tame_le: "tame m \<Longrightarrow> length (stdin w) \<le> n \<Longrightarrow> length (stdin (snd (m w))) \<le> n"
  by (auto simp: tame_def intro: order_trans)

lemma tame_ne: "tame m \<Longrightarrow> fst (m w) \<noteq> Inl ValueError"
  by (simp add: tame_def)

lemma tame_print_contact: "tame (print_contact contact)"
  by (rule tameI) (auto simp: print_contact_def getitem_def split: option.splits val.splits)

lemma tame_return: "(\<And>w. length (stdin (g w)) \<le> length (stdin w)) \<Longrightarrow> tame (\<lambda>w. (Inr x, g w))"
  by (simp add: tame_def)

lemma tame_create_insert: "tame (create_insert ident name age phone email)"
  by (rule tameI)
     (auto simp: create_insert_def db_insert_one_def insert_one_def Let_def split: if_splits)

lemma tame_create_contact: "tame create_contact"
  unfolding create_contact_def Let_def
  by (intro tame_and_then tame_int_input_loop tame_input tame_create_insert)

lemma tame_search_found: "tame (search_found contact)"
proof -
  have T: "tame (and_then (print_contact contact) (\<lambda>_ w3. (Inr (), print rule29 w3)))"
    by (intro tame_and_then tame_print_contact tame_return) simp
  show ?thesis
    by (rule tameI) (auto simp: search_found_def intro!: tame_le [OF T] tame_ne [OF T])
qed

lemma tame_search_one: "tame search_one"
  unfolding search_one_def Let_def
  apply (intro tame_and_then tame_input)
  apply (rule tameI)
   apply (auto simp: db_find_one_def intro!: tame_le [OF tame_search_found] tame_ne [OF tame_search_found])
  done

lemma tame_show_all_loop: "tame (show_all_loop contacts)"
proof (induction contacts)
  case Nil
  show ?case by (rule tameI) simp_all
next
  case (Cons contact contacts)
  have T: "tame (and_then (print_contact contact) (\<lambda>_. show_all_loop contacts))"
    by (intro tame_and_then tame_print_contact Cons)
  show ?case
    by (rule tameI) (auto intro!: tame_le [OF T] tame_ne [OF T])
qed

lemma tame_show_all: "tame show_all"
proof -
  have T: "tame (and_then (show_all_loop cs) (\<lambda>_ w3. (Inr (), print rule29 w3)))" for cs
    by (intro tame_and_then tame_show_all_loop tame_return) simp
  show ?thesis
    apply (rule tameI)
     apply (auto simp: show_all_def db_count_documents_def db_find_def Let_def
        intro!: tame_le [OF T] tame_ne [OF T])
    done
qed

lemma update_field_loop_Nil:
  "stdin w = [] \<Longrightarrow>
   update_field_loop w =
   (Inl EOFError, w\<lparr>stdout := stdout w @ [Prompt ''What field do you want to update? '']\<rparr>)"
  by (subst update_field_loop.simps) (simp add: input_Nil)

lemma update_field_loop_id:
  "stdin w = l # ls \<Longrightarrow> strip (lower l) = ''id'' \<Longrightarrow>
   update_field_loop w =
   update_field_loop
     (w\<lparr>stdin := ls,
        stdout := stdout w @ [Prompt ''What field do you want to update? '',
                              Line ''You can't modify the ID. (It's immutable!)'']\<rparr>)"
  by (subst update_field_loop.simps) (simp add: input_Cons print_def)

lemma update_field_loop_unknown:
  "stdin w = l # ls \<Longrightarrow> strip (lower l) \<noteq> ''id'' \<Longrightarrow>
   field_of l \<notin> {NAME_KEY, AGE_KEY, PHONE_KEY, EMAIL_KEY} \<Longrightarrow>
   update_field_loop w =
   update_field_loop
     (w\<lparr>stdin := ls,
        stdout := stdout w @ [Prompt ''What field do you want to update? '',
                              Field_unknown (field_of l)]\<rparr>)"
  by (subst update_field_loop.simps) (simp add: input_Cons print_def field_of_def Let_def)

lemma update_field_loop_accept:
  "stdin w = l # ls \<Longrightarrow> strip (lower l) \<noteq> ''id'' \<Longrightarrow>
   field_of l \<in> {NAME_KEY, AGE_KEY, PHONE_KEY, EMAIL_KEY} \<Longrightarrow>
   update_field_loop w =
   (Inr (field_of l),
    w\<lparr>stdin := ls, stdout := stdout w @ [Prompt ''What field do you want to update? '']\<rparr>)"
  by (subst update_field_loop.simps)
     (auto simp: input_Cons print_def field_of_def Let_def NAME_KEY_def AGE_KEY_def
        PHONE_KEY_def EMAIL_KEY_def split: if_splits)

lemma field_of_cases:
  obtains "strip (lower l) = ''id''"
  | "strip (lower l) \<noteq> ''id''" "field_of l \<notin> {NAME_KEY, AGE_KEY, PHONE_KEY, EMAIL_KEY}"
  | "strip (lower l) \<noteq> ''id''" "field_of l \<in> {NAME_KEY, AGE_KEY, PHONE_KEY, EMAIL_KEY}"
  by blast

lemma tame_update_field_loop: "tame update_field_loop"
proof -
  have "length (stdin (snd (update_field_loop w))) \<le> length (stdin w)
        \<and> fst (update_field_loop w) \<noteq> Inl ValueError" for w
  proof (induction xs \<equiv> "stdin w" arbitrary: w)
    case Nil
    then show ?case by (simp add: update_field_loop_Nil)
  next
    case (Cons l ls)
    then have st: "stdin w = l # ls" by simp
    show ?case
    proof (cases l rule: field_of_cases)
      case 1
      with st Cons(1) [of "w\<lparr>stdin := ls,
        stdout := stdout w @ [Prompt ''What field do you want to update? '',
                              Line ''You can't modify the ID. (It's immutable!)'']\<rparr>"]
      show ?thesis by (simp add: update_field_loop_id [of w l ls])
    next
      case 2
      with st Cons(1) [of "w\<lparr>stdin := ls,
        stdout := stdout w @ [Prompt ''What field do you want to update? '',
                              Field_unknown (field_of l)]\<rparr>"]
      show ?thesis by (simp add: update_field_loop_unknown [of w l ls])
    next
      case 3
      with st show ?thesis by (simp add: update_field_loop_accept [of w l ls])
    qed
  qed
  then show ?thesis by (simp add: tame_def)
qed

lemma update_value_loop_Nil:
  "stdin w = [] \<Longrightarrow>
   update_value_loop field w = (Inl EOFError, w\<lparr>stdout := stdout w @ [Prompt ''Enter the value: '']\<rparr>)"
  by (subst update_value_loop.simps) (simp add: input_Nil)

lemma update_value_loop_other:
  "stdin w = l # ls \<Longrightarrow> field \<noteq> AGE_KEY \<Longrightarrow>
   update_value_loop field w =
   update_value_loop field (w\<lparr>stdin := ls, stdout := stdout w @ [Prompt ''Enter the value: '']\<rparr>)"
  by (subst update_value_loop.simps) (simp add: input_Cons)

lemma update_value_loop_accept:
  "stdin w = l # ls \<Longrightarrow> py_int (lower l) = Inr n \<Longrightarrow>
   update_value_loop AGE_KEY w =
   (Inr (IntV n), w\<lparr>stdin := ls, stdout := stdout w @ [Prompt ''Enter the value: '']\<rparr>)"
  by (subst update_value_loop.simps) (simp add: input_Cons)

lemma update_value_loop_retry:
  "stdin w = l # ls \<Longrightarrow> py_int (lower l) = Inl e \<Longrightarrow>
   update_value_loop AGE_KEY w =
   update_value_loop AGE_KEY
     (w\<lparr>stdin := ls,
        stdout := stdout w @ [Prompt ''Enter the value: '',
                              Line ''Age must be a number. Please try again.'']\<rparr>)"
  by (subst update_value_loop.simps) (auto simp: input_Cons print_def dest: py_int_error)

lemma tame_update_value_loop: "tame (update_value_loop field)"
proof -
  have "length (stdin (snd (update_value_loop field w))) \<le> length (stdin w)
        \<and> fst (update_value_loop field w) \<noteq> Inl ValueError" for w
  proof (induction xs \<equiv> "stdin w" arbitrary: w)
    case Nil
    then show ?case by (simp add: update_value_loop_Nil)
  next
    case (Cons l ls)
    then have st: "stdin w = l # ls" by simp
    show ?case
    proof (cases "field = AGE_KEY")
      case False
      with st Cons(1) [of "w\<lparr>stdin := ls, stdout := stdout w @ [Prompt ''Enter the value: '']\<rparr>"]
      show ?thesis by (simp add: update_value_loop_other [of w l ls])
    next
      case True
      show ?thesis
      proof (cases "py_int (lower l)")
        case (Inr n)
        with st True show ?thesis by (simp add: update_value_loop_accept [of w l ls])
      next
        case (Inl e)
        with st True Cons(1) [of "w\<lparr>stdin := ls,
          stdout := stdout w @ [Prompt ''Enter the value: '',
                                Line ''Age must be a number. Please try again.'']\<rparr>"]
        show ?thesis by (simp add: update_value_loop_retry [of w l ls])
      qed
    qed
  qed
  then show ?thesis by (simp add: tame_def)
qed

lemma stdin_db_update_one [simp]: "stdin (snd (db_update_one flt upd w)) = stdin w"
  by (simp add: db_update_one_def split: prod.splits)

lemma stdin_db_delete_one [simp]: "stdin (db_delete_one flt w) = stdin w"
  by (simp add: db_delete_one_def)

lemma tame_update_store: "tame (update_store contact field v)"
  by (rule tameI)
     (auto simp: update_store_def getitem_def db_update_one_def split: option.splits prod.splits)

lemma tame_update_found: "tame (update_found contact)"
proof -
  have S: "tame (and_then update_field_loop (\<lambda>field.
       and_then (update_value_loop field) (\<lambda>v.
       update_store contact field v)))"
    by (intro tame_and_then tame_update_field_loop tame_update_value_loop tame_update_store)
  have T: "tame (and_then (print_contact contact) (\<lambda>_ w3.
       and_then update_field_loop (\<lambda>field.
       and_then (update_value_loop field) (\<lambda>v.
       update_store contact field v))
         (print rule19 w3)))"
    by (intro tame_and_then tame_print_contact)
       (rule tameI, auto intro!: tame_le [OF S] tame_ne [OF S])
  show ?thesis
    by (rule tameI) (auto simp: update_found_def intro!: tame_le [OF T] tame_ne [OF T])
qed

lemma tame_update: "tame update"
  unfolding update_def Let_def
  apply (intro tame_and_then tame_input)
  apply (rule tameI)
   apply (auto simp: db_find_one_def intro!: tame_le [OF tame_update_found] tame_ne [OF tame_update_found])
  done

lemma tame_delete_confirm: "tame (delete_confirm contact answer)"
  by (rule tameI) (auto simp: delete_confirm_def getitem_def split: option.splits)

lemma tame_delete_found: "tame (delete_found contact)"
proof -
  have S: "tame (and_then (input ''Are you sure you want to delete this contact? (Y/N) > '')
         (delete_confirm contact))"
    by (intro tame_and_then tame_input tame_delete_confirm)
  have T: "tame (and_then (print_contact contact) (\<lambda>_ w3.
       and_then (input ''Are you sure you want to delete this contact? (Y/N) > '')
         (delete_confirm contact)
         (print rule19 w3)))"
    by (intro tame_and_then tame_print_contact)
       (rule tameI, auto intro!: tame_le [OF S] tame_ne [OF S])
  show ?thesis
    by (rule tameI) (auto simp: delete_found_def intro!: tame_le [OF T] tame_ne [OF T])
qed

lemma tame_delete: "tame delete"
  unfolding delete_def Let_def
  apply (intro tame_and_then tame_input)
  apply (rule tameI)
   apply (auto simp: db_find_one_def intro!: tame_le [OF tame_delete_found] tame_ne [OF tame_delete_found])
  done

lemma stdin_print_menu [simp]: "stdin (print_menu w) = stdin w"
  by (simp add: print_menu_def)

section \<open>The menu loop\<close>

lemma and_then_cong [fundef_cong]:
  "m1 = m2 \<Longrightarrow> w1 = w2 \<Longrightarrow> (\<And>x w'. m2 w2 = (Inr x, w') \<Longrightarrow> f1 x w' = f2 x w') \<Longrightarrow>
   and_then m1 f1 w1 = and_then m2 f2 w2"
  by (auto simp: and_then_def split: prod.splits sum.splits)

lemma input_menu_shorter:
  "(x, y) = input p (print_menu w) \<Longrightarrow> x = Inr b \<Longrightarrow> length (stdin y) < length (stdin w)"
  by (auto simp: input_def Let_def print_def print_menu_def split: list.splits)

function main :: "unit io" where
  "main w =
     (case input ''Select option> '' (print_menu w) of
        (Inl e, w1) \<Rightarrow> (Inl e, w1)
      | (Inr l, w1) \<Rightarrow>
          (case py_int l of
             Inl e \<Rightarrow>
               if e = ValueError
               then main (print (Line ''*** The option must be a number. Please try again. ***'') w1)
               else (Inl e, w1)
           | Inr opt \<Rightarrow>
               if opt = EXIT_OPT then (Inr (), print (Line ''Thanks for using this app! Cya!'') w1)
               else if opt = CREATE_OPT then and_then create_contact (\<lambda>_. main) w1
               else if opt = SEARCH_OPT then and_then search_one (\<lambda>_. main) w1
               else if opt = SHOW_ALL_OPT then and_then show_all (\<lambda>_. main) w1
               else if opt = UPDATE_OPT then and_then update (\<lambda>_. main) w1
               else if opt = DELETE_OPT then and_then delete (\<lambda>_. main) w1
               else main (print (Line ''*** Not a valid option. Please try again. ***'') w1)))"
  by pat_completeness auto
termination
proof (relation "measure (\<lambda>w. length (stdin w))", goal_cases)
  case 1
  show ?case by simp
next
  case (2 w x y b a)
  then show ?case by (auto dest: input_menu_shorter)
next
  case (3 w x y b ba xa w')
  with tame_stdin [OF tame_create_contact, of y] show ?case
    by (fastforce dest: input_menu_shorter)
next
  case (4 w x y b ba xa w')
  with tame_stdin [OF tame_search_one, of y] show ?case
    by (fastforce dest: input_menu_shorter)
next
  case (5 w x y b ba xa w')
  with tame_stdin [OF tame_show_all, of y] show ?case
    by (fastforce dest: input_menu_shorter)
next
  case (6 w x y b ba xa w')
  with tame_stdin [OF tame_update, of y] show ?case
    by (fastforce dest: input_menu_shorter)
next
  case (7 w x y b ba xa w')
  with tame_stdin [OF tame_delete, of y] show ?case
    by (fastforce dest: input_menu_shorter)
next
  case (8 w x y b ba)
  then show ?case by (auto dest: input_menu_shorter)
qed

declare main.simps [simp del]

section \<open>Notions of the statements\<close>

text \<open>What a loop prints for the lines it refuses: the prompt and the message, per line.\<close>

definition retries :: "string \<Rightarrow> string \<Rightarrow> string list \<Rightarrow> out list" where
  "retries prompt msg junk = concat (map (\<lambda>_. [Prompt prompt, Line msg]) junk)"

text \<open>
  What \<open>create_contact\<close> prints before its \<open>try\<close> statement when the lines \<open>junk1\<close>
  are refused as id and the lines \<open>junk2\<close> as age.
\<close>

definition create_prompts :: "string list \<Rightarrow> string list \<Rightarrow> out list" where
  "create_prompts junk1 junk2 =
     retries ''Enter ID: '' ''ID must be a number. Please try again.'' junk1
     @ [Prompt ''Enter ID: '', Prompt ''Enter name: '']
     @ retries ''Enter age: '' ''Age must be a number. Please try again.'' junk2
     @ [Prompt ''Enter age: '', Prompt ''Enter phone number: '', Prompt ''Enter email: '']"

text \<open>The seven lines of the menu (lines 191 to 197).\<close>

definition menu :: "out list" where
  "menu = map Line [''Menu:'', ''  0. Exit'', ''  1. Create'', ''  2. Search'',
                    ''  3. Show All'', ''  4. Update'', ''  5. Delete'']"

text \<open>What the menu loop prints for the lines it refuses as option.\<close>

definition menu_retries :: "string list \<Rightarrow> out list" where
  "menu_retries junk =
     concat (map (\<lambda>_. menu @ [Prompt ''Select option> '',
                              Line ''*** The option must be a number. Please try again. ***'']) junk)"

text \<open>The contact of the example scenario of the specification.\<close>

definition ana :: doc where
  "ana = [(ID_KEY, IntV 1), (NAME_KEY, StrV ''ana''), (AGE_KEY, IntV 30),
          (PHONE_KEY, StrV ''555-1111''), (EMAIL_KEY, StrV ''ana@x.com'')]"

text \<open>A contact with its five fields, the name a string: what \<open>print_contact\<close> can print.\<close>

definition has_fields :: "doc \<Rightarrow> val \<Rightarrow> string \<Rightarrow> val \<Rightarrow> val \<Rightarrow> val \<Rightarrow> bool" where
  "has_fields contact i n a p m \<longleftrightarrow>
     map_of contact ID_KEY = Some i \<and> map_of contact NAME_KEY = Some (StrV n)
     \<and> map_of contact AGE_KEY = Some a \<and> map_of contact PHONE_KEY = Some p
     \<and> map_of contact EMAIL_KEY = Some m"

text \<open>
  The ids of a collection are unique: \<open>insert_one\<close> refuses a document whose id is
  stored, and no operation of the program changes an id.
\<close>

definition unique_ids :: "collection \<Rightarrow> bool" where
  "unique_ids c \<longleftrightarrow> distinct (map (\<lambda>d. map_of d ID_KEY) c)"

text \<open>
  What \<open>delete\<close> prints once a contact is found: the contact between two rules, and
  the question.
\<close>

definition shown :: "out \<Rightarrow> out list" where
  "shown c =
     [rule19, c, rule19, Prompt ''Are you sure you want to delete this contact? (Y/N) > '']"

text \<open>
  The lines the loop of lines 120 to 136 refuses: \<open>id\<close>, and what is not one of the
  four fields (nor \<open>phone number\<close> or \<open>e-mail\<close>).
\<close>

definition refused_field :: "string \<Rightarrow> bool" where
  "refused_field l \<longleftrightarrow>
     strip (lower l) = ''id'' \<or> field_of l \<notin> {NAME_KEY, AGE_KEY, PHONE_KEY, EMAIL_KEY}"

text \<open>What that loop prints for the lines it refuses.\<close>

definition field_retries :: "string list \<Rightarrow> out list" where
  "field_retries junk =
     concat (map (\<lambda>l. [Prompt ''What field do you want to update? '',
                        if strip (lower l) = ''id''
                        then Line ''You can't modify the ID. (It's immutable!)''
                        else Field_unknown (field_of l)]) junk)"

text \<open>
  What \<open>update\<close> prints up to the call of \<open>update_one\<close>, for the contact shown as
  \<open>c\<close>, the lines \<open>junkf\<close> refused as field and the lines \<open>junkv\<close> refused as age.
\<close>

definition update_prompts :: "out \<Rightarrow> string list \<Rightarrow> string list \<Rightarrow> out list" where
  "update_prompts c junkf junkv =
     [Prompt ''Enter name to search: '', rule19, c, rule19]
     @ field_retries junkf @ [Prompt ''What field do you want to update? '']
     @ retries ''Enter the value: '' ''Age must be a number. Please try again.'' junkv
     @ [Prompt ''Enter the value: '']"

text \<open>A second contact of the same name.\<close>

definition namesake :: doc where
  "namesake = [(ID_KEY, IntV 2), (NAME_KEY, StrV ''ana''), (AGE_KEY, IntV 52),
               (PHONE_KEY, StrV ''555-2222''), (EMAIL_KEY, StrV ''ana2@x.com'')]"

text \<open>A run of \<open>update\<close> on two contacts of the same name, before and after.\<close>

definition two_anas :: world where
  "two_anas =
     \<lparr>stdin = [''Ana'', ''age'', ''31''], stdout = [], db_contacts = [ana, namesake], calls = []\<rparr>"

definition two_anas_updated :: world where
  "two_anas_updated =
     \<lparr>stdin = [],
      stdout = update_prompts (Card (IntV 1) ''ana'' (IntV 30) (StrV ''555-1111'') (StrV ''ana@x.com''))
                 [] []
        @ [Updated 1 None, Raw_result 1 1],
      db_contacts = [[(ID_KEY, IntV 1), (NAME_KEY, StrV ''ana''), (AGE_KEY, IntV 31),
                      (PHONE_KEY, StrV ''555-1111''), (EMAIL_KEY, StrV ''ana@x.com'')], namesake],
      calls = [Find_one (NAME_KEY, StrV ''ana''), Update_one (ID_KEY, IntV 1) (AGE_KEY, IntV 31)]\<rparr>"

text \<open>The card \<open>print_contact\<close> prints for a contact, when it can print it.\<close>

definition card_of :: "doc \<Rightarrow> out option" where
  "card_of contact =
     (case (map_of contact ID_KEY, map_of contact NAME_KEY, map_of contact AGE_KEY,
            map_of contact PHONE_KEY, map_of contact EMAIL_KEY) of
        (Some i, Some (StrV n), Some a, Some p, Some m) \<Rightarrow> Some (Card i n a p m)
      | _ \<Rightarrow> None)"

text \<open>
  A history of the collection: the inserts it accepted and the deletes by id, in order.
  \<open>replay\<close> runs a history on a collection; \<open>remaining\<close> follows the words of the
  specification, the records inserted and not deleted afterwards.
\<close>

datatype store_op = Ins doc | Del val

fun replay :: "store_op list \<Rightarrow> collection \<Rightarrow> collection option" where
  "replay [] c = Some c"
| "replay (Ins d # ops) c =
     (case insert_one c d of Inl e \<Rightarrow> None | Inr (r, c') \<Rightarrow> replay ops c')"
| "replay (Del i # ops) c = replay ops (delete_one c (ID_KEY, i))"

definition deleted_later :: "doc \<Rightarrow> store_op list \<Rightarrow> bool" where
  "deleted_later d ops = (case map_of d ID_KEY of None \<Rightarrow> False | Some i \<Rightarrow> Del i \<in> set ops)"

fun remaining :: "store_op list \<Rightarrow> doc set" where
  "remaining [] = {}"
| "remaining (Ins d # ops) =
     (if deleted_later d ops then remaining ops else insert d (remaining ops))"
| "remaining (Del i # ops) = remaining ops"

section \<open>Reading integers\<close>

lemma retries_simps [simp]:
  "retries p m [] = []"
  "retries p m (j # junk) = Prompt p # Line m # retries p m junk"
  by (simp_all add: retries_def)

lemma int_input_loop_skip:
  "\<forall>j \<in> set junk. py_int j = Inl ValueError \<Longrightarrow> stdin w = junk @ rest \<Longrightarrow>
   int_input_loop p m w =
   int_input_loop p m (w\<lparr>stdin := rest, stdout := stdout w @ retries p m junk\<rparr>)"
proof (induction junk arbitrary: w)
  case Nil
  then have "w\<lparr>stdin := rest, stdout := stdout w @ retries p m []\<rparr> = w"
    by (cases w) simp
  then show ?case by simp
next
  case (Cons j junk)
  from Cons.prems have "int_input_loop p m w =
      int_input_loop p m (w\<lparr>stdin := junk @ rest, stdout := stdout w @ [Prompt p, Line m]\<rparr>)"
    by (simp add: int_input_loop_retry [of w j "junk @ rest"])
  also have "\<dots> = int_input_loop p m (w\<lparr>stdin := rest, stdout := stdout w @ retries p m (j # junk)\<rparr>)"
    using Cons.prems
    by (subst Cons.IH) simp_all
  finally show ?case .
qed

lemma int_input_loop_reads:
  assumes "\<forall>j \<in> set junk. py_int j = Inl ValueError" and "py_int l = Inr n"
    and "stdin w = junk @ l # rest"
  shows "int_input_loop p m w =
         (Inr n, w\<lparr>stdin := rest, stdout := stdout w @ retries p m junk @ [Prompt p]\<rparr>)"
  using assms
  by (simp add: int_input_loop_skip [of junk w "l # rest"]
      int_input_loop_accept [of _ l rest])

lemma create_contact_reads:
  assumes "\<forall>j \<in> set junk1. py_int j = Inl ValueError" and "py_int idl = Inr i"
    and "\<forall>j \<in> set junk2. py_int j = Inl ValueError" and "py_int agel = Inr a"
    and "stdin w = junk1 @ idl # nm # junk2 @ agel # ph # em # rest"
  shows "create_contact w =
         create_insert i (lower nm) a (lower ph) (lower em)
           (w\<lparr>stdin := rest, stdout := stdout w @ create_prompts junk1 junk2\<rparr>)"
  using assms
  by (simp add: create_contact_def and_then_def create_prompts_def
      int_input_loop_reads [of junk1 idl i _ "nm # junk2 @ agel # ph # em # rest"]
      int_input_loop_reads [of junk2 agel a _ "ph # em # rest"]
      input_Cons)

lemma print_menu_eq: "print_menu w = w\<lparr>stdout := stdout w @ menu\<rparr>"
  by (simp add: print_menu_def menu_def print_def)

lemma main_Nil:
  "stdin w = [] \<Longrightarrow>
   main w = (Inl EOFError, w\<lparr>stdout := stdout w @ menu @ [Prompt ''Select option> '']\<rparr>)"
  by (subst main.simps) (simp add: print_menu_eq input_Nil)

lemma main_retry:
  "stdin w = l # ls \<Longrightarrow> py_int l = Inl e \<Longrightarrow>
   main w =
   main (w\<lparr>stdin := ls,
          stdout := stdout w @ menu
            @ [Prompt ''Select option> '',
               Line ''*** The option must be a number. Please try again. ***'']\<rparr>)"
  by (subst main.simps) (auto simp: print_menu_eq input_Cons print_def dest: py_int_error)

lemma main_skip:
  "\<forall>j \<in> set junk. py_int j = Inl ValueError \<Longrightarrow> stdin w = junk @ rest \<Longrightarrow>
   main w = main (w\<lparr>stdin := rest, stdout := stdout w @ menu_retries junk\<rparr>)"
proof (induction junk arbitrary: w)
  case Nil
  then have "w\<lparr>stdin := rest, stdout := stdout w @ menu_retries []\<rparr> = w"
    by (cases w) (simp add: menu_retries_def)
  then show ?case by simp
next
  case (Cons j junk)
  from Cons.prems have "main w =
      main (w\<lparr>stdin := junk @ rest,
             stdout := stdout w @ menu
               @ [Prompt ''Select option> '',
                  Line ''*** The option must be a number. Please try again. ***'']\<rparr>)"
    by (simp add: main_retry [of w j "junk @ rest"])
  also have "\<dots> = main (w\<lparr>stdin := rest, stdout := stdout w @ menu_retries (j # junk)\<rparr>)"
    using Cons.prems
    by (subst Cons.IH) (simp_all add: menu_retries_def)
  finally show ?case .
qed

lemma main_option:
  "stdin w = l # ls \<Longrightarrow> py_int l = Inr opt \<Longrightarrow>
   main w =
   (let w1 = w\<lparr>stdin := ls, stdout := stdout w @ menu @ [Prompt ''Select option> '']\<rparr>
    in if opt = EXIT_OPT then (Inr (), print (Line ''Thanks for using this app! Cya!'') w1)
       else if opt = CREATE_OPT then and_then create_contact (\<lambda>_. main) w1
       else if opt = SEARCH_OPT then and_then search_one (\<lambda>_. main) w1
       else if opt = SHOW_ALL_OPT then and_then show_all (\<lambda>_. main) w1
       else if opt = UPDATE_OPT then and_then update (\<lambda>_. main) w1
       else if opt = DELETE_OPT then and_then delete (\<lambda>_. main) w1
       else main (print (Line ''*** Not a valid option. Please try again. ***'') w1))"
  by (subst main.simps) (simp add: print_menu_eq input_Cons)

lemma main_no_ValueError: "fst (main w) \<noteq> Inl ValueError"
proof (induction n \<equiv> "length (stdin w)" arbitrary: w rule: less_induct)
  case less
  have step: "fst (and_then m (\<lambda>_. main) w1) \<noteq> Inl ValueError"
    if "tame m" and "length (stdin w1) < length (stdin w)" for m :: "unit io" and w1
  proof (cases "m w1")
    case (Pair x w2)
    from tame_stdin [OF that(1) Pair] that(2) have "length (stdin w2) < length (stdin w)"
      by simp
    then have "fst (main w2) \<noteq> Inl ValueError" by (rule less)
    with Pair tame_ne [OF that(1), of w1] show ?thesis
      by (cases x) (simp_all add: and_then_def)
  qed
  show ?case
  proof (cases "stdin w")
    case Nil
    then show ?thesis by (simp add: main_Nil)
  next
    case (Cons l ls)
    define w1 where "w1 = w\<lparr>stdin := ls, stdout := stdout w @ menu @ [Prompt ''Select option> '']\<rparr>"
    have lt: "length (stdin w1) < length (stdin w)" by (simp add: w1_def Cons)
    show ?thesis
    proof (cases "py_int l")
      case (Inl e)
      have "fst (main (w\<lparr>stdin := ls,
          stdout := stdout w @ menu
            @ [Prompt ''Select option> '',
               Line ''*** The option must be a number. Please try again. ***'']\<rparr>)) \<noteq> Inl ValueError"
        by (rule less) (simp add: Cons)
      then show ?thesis by (simp add: main_retry [OF Cons Inl])
    next
      case (Inr opt)
      have other: "fst (main (print (Line ''*** Not a valid option. Please try again. ***'') w1))
          \<noteq> Inl ValueError"
        by (rule less) (simp add: lt)
      show ?thesis
        unfolding main_option [OF Cons Inr] Let_def w1_def [symmetric]
        using other step [OF tame_create_contact lt] step [OF tame_search_one lt]
          step [OF tame_show_all lt] step [OF tame_update lt] step [OF tame_delete lt]
        by simp
    qed
  qed
qed

lemma create_insert_duplicate:
  "\<exists>d \<in> set (db_contacts w). map_of d ID_KEY = Some (IntV i) \<Longrightarrow>
   create_insert i n a p m w =
   (Inr (), w\<lparr>stdout := stdout w @ [Id_exists i],
              calls := calls w @ [Insert_one [(ID_KEY, IntV i), (NAME_KEY, StrV n), (AGE_KEY, IntV a),
                                              (PHONE_KEY, StrV p), (EMAIL_KEY, StrV m)]]\<rparr>)"
  by (auto simp: create_insert_def db_insert_one_def insert_one_def print_def)

lemma create_insert_fresh:
  "\<forall>d \<in> set (db_contacts w). map_of d ID_KEY \<noteq> Some (IntV i) \<Longrightarrow>
   create_insert i n a p m w =
   (Inr (), w\<lparr>stdout := stdout w @ [Created (Some (IntV i))],
              db_contacts := db_contacts w @ [[(ID_KEY, IntV i), (NAME_KEY, StrV n), (AGE_KEY, IntV a),
                                              (PHONE_KEY, StrV p), (EMAIL_KEY, StrV m)]],
              calls := calls w @ [Insert_one [(ID_KEY, IntV i), (NAME_KEY, StrV n), (AGE_KEY, IntV a),
                                              (PHONE_KEY, StrV p), (EMAIL_KEY, StrV m)]]\<rparr>)"
  by (auto simp: create_insert_def db_insert_one_def insert_one_def print_def)

lemma main_reads:
  assumes "\<forall>j \<in> set junk. py_int j = Inl ValueError" and "py_int l = Inr opt"
    and "stdin w = junk @ l # rest"
  shows "main w =
         (let w1 = w\<lparr>stdin := rest,
                     stdout := stdout w @ menu_retries junk @ menu @ [Prompt ''Select option> '']\<rparr>
          in if opt = EXIT_OPT then (Inr (), print (Line ''Thanks for using this app! Cya!'') w1)
             else if opt = CREATE_OPT then and_then create_contact (\<lambda>_. main) w1
             else if opt = SEARCH_OPT then and_then search_one (\<lambda>_. main) w1
             else if opt = SHOW_ALL_OPT then and_then show_all (\<lambda>_. main) w1
             else if opt = UPDATE_OPT then and_then update (\<lambda>_. main) w1
             else if opt = DELETE_OPT then and_then delete (\<lambda>_. main) w1
             else main (print (Line ''*** Not a valid option. Please try again. ***'') w1))"
proof -
  define w0 where "w0 = w\<lparr>stdin := l # rest, stdout := stdout w @ menu_retries junk\<rparr>"
  have st: "stdin w0 = l # rest" by (simp add: w0_def)
  have "w0\<lparr>stdin := rest, stdout := stdout w0 @ menu @ [Prompt ''Select option> '']\<rparr> =
      w\<lparr>stdin := rest,
        stdout := stdout w @ menu_retries junk @ menu @ [Prompt ''Select option> '']\<rparr>"
    by (simp add: w0_def)
  with main_option [OF st assms(2)] main_skip [OF assms(1,3)] show ?thesis
    by (simp add: w0_def)
qed

lemma main_ends:
  assumes "\<forall>j \<in> set junk. py_int j = Inl ValueError" and "stdin w = junk"
  shows "main w =
         (Inl EOFError,
          w\<lparr>stdin := [],
            stdout := stdout w @ menu_retries junk @ menu @ [Prompt ''Select option> '']\<rparr>)"
proof -
  from assms(2) have "stdin w = junk @ []" by simp
  from main_skip [OF assms(1) this] show ?thesis by (simp add: main_Nil)
qed

text \<open>
  Claim C8. A line that is not an integer, entered where the id or the age of
  \<open>create_contact\<close> or the option of the menu is read, is answered by the message and
  the same prompt again. With such lines before the id and before the age,
  \<open>create_contact\<close> reaches its \<open>try\<close> statement with the integers of the first lines
  that parse, having made no call on the collection. With such lines before the option,
  the menu loop prints the menu, the prompt and the message once per line, makes no call
  on the collection, and then does what the first line that parses selects: it leaves
  on 0, runs the operation selected, or refuses an option that is not on the menu; when
  the input ends first, it ends in \<open>EOFError\<close>. Neither ever ends in \<open>ValueError\<close>.
\<close>

theorem non_integer_input_is_asked_again:
  assumes "\<forall>j \<in> set junk1. py_int j = Inl ValueError"
    and "\<forall>j \<in> set junk2. py_int j = Inl ValueError"
    and "py_int idl = Inr i" and "py_int agel = Inr a" and "py_int optl = Inr opt"
  shows "(stdin w = junk1 @ idl # nm # junk2 @ agel # ph # em # rest \<longrightarrow>
          create_contact w =
          create_insert i (lower nm) a (lower ph) (lower em)
            (w\<lparr>stdin := rest, stdout := stdout w @ create_prompts junk1 junk2\<rparr>))
       \<and> (stdin w = junk1 @ rest \<longrightarrow>
          main w = main (w\<lparr>stdin := rest, stdout := stdout w @ menu_retries junk1\<rparr>))
       \<and> (stdin w = junk1 @ optl # rest \<longrightarrow>
          main w =
          (let w1 = w\<lparr>stdin := rest,
                      stdout := stdout w @ menu_retries junk1 @ menu @ [Prompt ''Select option> '']\<rparr>
           in if opt = EXIT_OPT then (Inr (), print (Line ''Thanks for using this app! Cya!'') w1)
              else if opt = CREATE_OPT then and_then create_contact (\<lambda>_. main) w1
              else if opt = SEARCH_OPT then and_then search_one (\<lambda>_. main) w1
              else if opt = SHOW_ALL_OPT then and_then show_all (\<lambda>_. main) w1
              else if opt = UPDATE_OPT then and_then update (\<lambda>_. main) w1
              else if opt = DELETE_OPT then and_then delete (\<lambda>_. main) w1
              else main (print (Line ''*** Not a valid option. Please try again. ***'') w1)))
       \<and> (stdin w = junk1 \<longrightarrow>
          main w =
          (Inl EOFError,
           w\<lparr>stdin := [],
             stdout := stdout w @ menu_retries junk1 @ menu @ [Prompt ''Select option> '']\<rparr>))
       \<and> fst (create_contact w) \<noteq> Inl ValueError
       \<and> fst (main w) \<noteq> Inl ValueError"
proof (intro conjI impI, goal_cases)
  case 1
  then show ?case by (rule create_contact_reads [OF assms(1,3,2,4)])
next
  case 2
  then show ?case by (rule main_skip [OF assms(1)])
next
  case 3
  then show ?case by (rule main_reads [OF assms(1,5)])
next
  case 4
  then show ?case by (rule main_ends [OF assms(1)])
next
  case 5
  show ?case by (rule tame_ne [OF tame_create_contact])
next
  case 6
  show ?case by (rule main_no_ValueError)
qed

theorem non_integer_input_is_asked_again_witness:
  "create_contact
     \<lparr>stdin = [''x'', ''1'', ''Ana'', ''3o'', ''30'', ''555'', ''A@x.io''], stdout = [],
      db_contacts = [], calls = []\<rparr> =
   (Inr (),
    \<lparr>stdin = [], stdout = create_prompts [''x''] [''3o''] @ [Created (Some (IntV 1))],
     db_contacts = [[(ID_KEY, IntV 1), (NAME_KEY, StrV ''ana''), (AGE_KEY, IntV 30),
                     (PHONE_KEY, StrV ''555''), (EMAIL_KEY, StrV ''a@x.io'')]],
     calls = [Insert_one [(ID_KEY, IntV 1), (NAME_KEY, StrV ''ana''), (AGE_KEY, IntV 30),
                          (PHONE_KEY, StrV ''555''), (EMAIL_KEY, StrV ''a@x.io'')]]\<rparr>)
   \<and> main \<lparr>stdin = [''x'', ''3o'', ''0'', ''1''], stdout = [], db_contacts = [ana], calls = []\<rparr> =
     (Inr (),
      \<lparr>stdin = [''1''],
       stdout = menu_retries [''x'', ''3o''] @ menu
         @ [Prompt ''Select option> '', Line ''Thanks for using this app! Cya!''],
       db_contacts = [ana], calls = []\<rparr>)
   \<and> main \<lparr>stdin = [''x''], stdout = [], db_contacts = [ana], calls = []\<rparr> =
     (Inl EOFError,
      \<lparr>stdin = [], stdout = menu_retries [''x''] @ menu @ [Prompt ''Select option> ''],
       db_contacts = [ana], calls = []\<rparr>)"
proof -
  have j1: "\<forall>j \<in> set [''x'']. py_int j = Inl ValueError" by code_simp
  have j2: "\<forall>j \<in> set [''3o'']. py_int j = Inl ValueError" by code_simp
  have j3: "\<forall>j \<in> set [''x'', ''3o'']. py_int j = Inl ValueError" by code_simp
  have i: "py_int ''1'' = Inr 1" by code_simp
  have a: "py_int ''30'' = Inr 30" by code_simp
  have z: "py_int ''0'' = Inr 0" by code_simp
  have l: "lower ''Ana'' = ''ana''" "lower ''555'' = ''555''" "lower ''A@x.io'' = ''a@x.io''"
    by code_simp+
  from non_integer_input_is_asked_again [OF j1 j2 i a z,
      of "\<lparr>stdin = [''x'', ''1'', ''Ana'', ''3o'', ''30'', ''555'', ''A@x.io''], stdout = [],
           db_contacts = [], calls = []\<rparr>" "''Ana''" "''555''" "''A@x.io''" "[]"]
  have c: "create_contact
     \<lparr>stdin = [''x'', ''1'', ''Ana'', ''3o'', ''30'', ''555'', ''A@x.io''], stdout = [],
      db_contacts = [], calls = []\<rparr> =
   (Inr (),
    \<lparr>stdin = [], stdout = create_prompts [''x''] [''3o''] @ [Created (Some (IntV 1))],
     db_contacts = [[(ID_KEY, IntV 1), (NAME_KEY, StrV ''ana''), (AGE_KEY, IntV 30),
                     (PHONE_KEY, StrV ''555''), (EMAIL_KEY, StrV ''a@x.io'')]],
     calls = [Insert_one [(ID_KEY, IntV 1), (NAME_KEY, StrV ''ana''), (AGE_KEY, IntV 30),
                          (PHONE_KEY, StrV ''555''), (EMAIL_KEY, StrV ''a@x.io'')]]\<rparr>)"
    by (simp add: l create_insert_fresh)
  from non_integer_input_is_asked_again [OF j3 j2 i a z,
      of "\<lparr>stdin = [''x'', ''3o'', ''0'', ''1''], stdout = [], db_contacts = [ana], calls = []\<rparr>"
         _ _ _ "[''1'']"]
  have m: "main \<lparr>stdin = [''x'', ''3o'', ''0'', ''1''], stdout = [], db_contacts = [ana], calls = []\<rparr> =
     (Inr (),
      \<lparr>stdin = [''1''],
       stdout = menu_retries [''x'', ''3o''] @ menu
         @ [Prompt ''Select option> '', Line ''Thanks for using this app! Cya!''],
       db_contacts = [ana], calls = []\<rparr>)"
    by (simp add: EXIT_OPT_def print_def)
  from non_integer_input_is_asked_again [OF j1 j2 i a z,
      of "\<lparr>stdin = [''x''], stdout = [], db_contacts = [ana], calls = []\<rparr>"]
  have e: "main \<lparr>stdin = [''x''], stdout = [], db_contacts = [ana], calls = []\<rparr> =
     (Inl EOFError,
      \<lparr>stdin = [], stdout = menu_retries [''x''] @ menu @ [Prompt ''Select option> ''],
       db_contacts = [ana], calls = []\<rparr>)"
    by simp
  from c m e show ?thesis by (intro conjI)
qed

section \<open>Creating and searching\<close>

text \<open>
  Claim C4. When the id read by \<open>create_contact\<close> is the id of a stored contact, the
  insert fails with \<open>DuplicateKeyError\<close>; \<open>create_contact\<close> catches it, prints that the
  id already exists and returns without reading or inserting again; the collection is
  the one it was before.
\<close>

theorem duplicate_id_is_reported_and_not_stored:
  assumes "\<forall>j \<in> set junk1. py_int j = Inl ValueError" and "py_int idl = Inr i"
    and "\<forall>j \<in> set junk2. py_int j = Inl ValueError" and "py_int agel = Inr a"
    and "stdin w = junk1 @ idl # nm # junk2 @ agel # ph # em # rest"
    and "\<exists>d \<in> set (db_contacts w). map_of d ID_KEY = Some (IntV i)"
  shows "insert_one (db_contacts w)
           [(ID_KEY, IntV i), (NAME_KEY, StrV (lower nm)), (AGE_KEY, IntV a),
            (PHONE_KEY, StrV (lower ph)), (EMAIL_KEY, StrV (lower em))] = Inl DuplicateKeyError
       \<and> create_contact w =
         (Inr (),
          w\<lparr>stdin := rest,
            stdout := stdout w @ create_prompts junk1 junk2 @ [Id_exists i],
            calls := calls w @
              [Insert_one [(ID_KEY, IntV i), (NAME_KEY, StrV (lower nm)), (AGE_KEY, IntV a),
                           (PHONE_KEY, StrV (lower ph)), (EMAIL_KEY, StrV (lower em))]]\<rparr>)
       \<and> db_contacts (snd (create_contact w)) = db_contacts w"
proof -
  from assms(6) have "insert_one (db_contacts w)
           [(ID_KEY, IntV i), (NAME_KEY, StrV (lower nm)), (AGE_KEY, IntV a),
            (PHONE_KEY, StrV (lower ph)), (EMAIL_KEY, StrV (lower em))] = Inl DuplicateKeyError"
    by (auto simp: insert_one_def)
  moreover from assms(6) have "create_contact w =
         (Inr (),
          w\<lparr>stdin := rest,
            stdout := stdout w @ create_prompts junk1 junk2 @ [Id_exists i],
            calls := calls w @
              [Insert_one [(ID_KEY, IntV i), (NAME_KEY, StrV (lower nm)), (AGE_KEY, IntV a),
                           (PHONE_KEY, StrV (lower ph)), (EMAIL_KEY, StrV (lower em))]]\<rparr>)"
    by (simp add: create_contact_reads [OF assms(1-5)] create_insert_duplicate)
  ultimately show ?thesis by simp
qed

theorem duplicate_id_is_reported_and_not_stored_witness:
  "create_contact
     \<lparr>stdin = [''1'', ''Bob'', ''41'', ''555-2222'', ''bob@x.com''], stdout = [],
      db_contacts = [ana], calls = []\<rparr> =
   (Inr (),
    \<lparr>stdin = [], stdout = create_prompts [] [] @ [Id_exists 1], db_contacts = [ana],
     calls = [Insert_one [(ID_KEY, IntV 1), (NAME_KEY, StrV ''bob''), (AGE_KEY, IntV 41),
                          (PHONE_KEY, StrV ''555-2222''), (EMAIL_KEY, StrV ''bob@x.com'')]]\<rparr>)"
proof -
  have i: "py_int ''1'' = Inr 1" by code_simp
  have a: "py_int ''41'' = Inr 41" by code_simp
  have l: "lower ''Bob'' = ''bob''" "lower ''555-2222'' = ''555-2222''"
    "lower ''bob@x.com'' = ''bob@x.com''"
    by code_simp+
  from duplicate_id_is_reported_and_not_stored [of "[]" "''1''" 1 "[]" "''41''" 41
      "\<lparr>stdin = [''1'', ''Bob'', ''41'', ''555-2222'', ''bob@x.com''], stdout = [],
        db_contacts = [ana], calls = []\<rparr>" "''Bob''" "''555-2222''" "''bob@x.com''" "[]"] i a
  show ?thesis by (simp add: l ana_def)
qed

lemma has_fields_nonempty: "has_fields contact i n a p m \<Longrightarrow> contact \<noteq> []"
  by (auto simp: has_fields_def)

lemma has_fields_new:
  "has_fields [(ID_KEY, IntV i), (NAME_KEY, StrV n), (AGE_KEY, IntV a), (PHONE_KEY, StrV p),
               (EMAIL_KEY, StrV m)] (IntV i) n (IntV a) (StrV p) (StrV m)"
  by (simp add: has_fields_def ID_KEY_def NAME_KEY_def AGE_KEY_def PHONE_KEY_def EMAIL_KEY_def)

lemma print_contact_card:
  "has_fields contact i n a p m \<Longrightarrow>
   print_contact contact w = (Inr (), w\<lparr>stdout := stdout w @ [Card i n a p m]\<rparr>)"
  by (simp add: has_fields_def print_contact_def getitem_def print_def)

lemma search_found_card:
  "has_fields contact i n a p m \<Longrightarrow>
   search_found contact w = (Inr (), w\<lparr>stdout := stdout w @ [rule29, Card i n a p m, rule29]\<rparr>)"
  by (simp add: search_found_def and_then_def print_contact_card print_def)

lemma search_one_Cons:
  "stdin w = q # rest \<Longrightarrow>
   search_one w =
   (let contact = find_one (db_contacts w) (NAME_KEY, StrV (lower q));
        w1 = w\<lparr>stdin := rest, stdout := stdout w @ [Prompt ''Enter name to search: ''],
               calls := calls w @ [Find_one (NAME_KEY, StrV (lower q))]\<rparr>
    in if truthy contact then search_found (the contact) w1
       else (Inr (), w1\<lparr>stdout := stdout w1 @ [Not_found (lower q)]\<rparr>))"
  by (simp add: search_one_def and_then_def input_Cons db_find_one_def Let_def print_def)

lemma find_one_append_new:
  "\<forall>d \<in> set c. \<not> matches flt d \<Longrightarrow> matches flt d' \<Longrightarrow> find_one (c @ [d']) flt = Some d'"
  by (induction c) (simp_all add: find_one_def)

text \<open>
  Claim C2, amended. When neither the id nor the lower-cased name entered is in the
  collection, \<open>create_contact\<close> followed by \<open>search_one\<close> with the same name in any
  casing prints the contact inserted: the id and the age as integers, and the name, the
  phone and the email in lower case.
\<close>

theorem insert_then_find_by_name:
  assumes "\<forall>j \<in> set junk1. py_int j = Inl ValueError" and "py_int idl = Inr i"
    and "\<forall>j \<in> set junk2. py_int j = Inl ValueError" and "py_int agel = Inr a"
    and "stdin w = junk1 @ idl # nm # junk2 @ agel # ph # em # q # rest"
    and "lower q = lower nm"
    and "\<forall>d \<in> set (db_contacts w).
           map_of d ID_KEY \<noteq> Some (IntV i) \<and> map_of d NAME_KEY \<noteq> Some (StrV (lower nm))"
  shows "and_then create_contact (\<lambda>_. search_one) w =
         (Inr (),
          w\<lparr>stdin := rest,
            stdout := stdout w @ create_prompts junk1 junk2
              @ [Created (Some (IntV i)), Prompt ''Enter name to search: '', rule29,
                 Card (IntV i) (lower nm) (IntV a) (StrV (lower ph)) (StrV (lower em)), rule29],
            db_contacts := db_contacts w @
              [[(ID_KEY, IntV i), (NAME_KEY, StrV (lower nm)), (AGE_KEY, IntV a),
                (PHONE_KEY, StrV (lower ph)), (EMAIL_KEY, StrV (lower em))]],
            calls := calls w @
              [Insert_one [(ID_KEY, IntV i), (NAME_KEY, StrV (lower nm)), (AGE_KEY, IntV a),
                           (PHONE_KEY, StrV (lower ph)), (EMAIL_KEY, StrV (lower em))],
               Find_one (NAME_KEY, StrV (lower q))]\<rparr>)"
proof -
  define d where "d = [(ID_KEY, IntV i), (NAME_KEY, StrV (lower nm)), (AGE_KEY, IntV a),
                (PHONE_KEY, StrV (lower ph)), (EMAIL_KEY, StrV (lower em))]"
  define w1 where "w1 = w\<lparr>stdin := q # rest,
            stdout := stdout w @ create_prompts junk1 junk2 @ [Created (Some (IntV i))],
            db_contacts := db_contacts w @ [d], calls := calls w @ [Insert_one d]\<rparr>"
  have hf: "has_fields d (IntV i) (lower nm) (IntV a) (StrV (lower ph)) (StrV (lower em))"
    unfolding d_def by (rule has_fields_new)
  from assms(7) have fresh: "\<forall>d \<in> set (db_contacts w). map_of d ID_KEY \<noteq> Some (IntV i)"
    by simp
  have create: "create_contact w = (Inr (), w1)"
    by (simp add: create_contact_reads [OF assms(1-5)] create_insert_fresh [OF _] fresh
        w1_def d_def)
  have "matches (NAME_KEY, StrV (lower q)) d"
    using hf assms(6) by (simp add: matches_def has_fields_def)
  moreover from assms(7) have "\<forall>d \<in> set (db_contacts w). \<not> matches (NAME_KEY, StrV (lower q)) d"
    by (simp add: matches_def assms(6))
  ultimately have found: "find_one (db_contacts w1) (NAME_KEY, StrV (lower q)) = Some d"
    by (simp add: w1_def find_one_append_new)
  have st: "stdin w1 = q # rest" by (simp add: w1_def)
  have "search_one w1 =
      (Inr (), w1\<lparr>stdin := rest,
                  stdout := stdout w1 @ [Prompt ''Enter name to search: '', rule29,
                    Card (IntV i) (lower nm) (IntV a) (StrV (lower ph)) (StrV (lower em)), rule29],
                  calls := calls w1 @ [Find_one (NAME_KEY, StrV (lower q))]\<rparr>)"
    by (simp add: search_one_Cons [OF st] found truthy_def has_fields_nonempty [OF hf]
        search_found_card [OF hf])
  with create show ?thesis
    by (simp add: and_then_def w1_def d_def)
qed

text \<open>
  Claim C2 as stated fails twice. A phone number typed with capital letters is stored in
  lower case, so the contact found differs from the input in the phone too; and with a
  stored contact of the same name, the contact found is the stored one, not the one
  inserted.
\<close>

theorem insert_then_find_by_name_counterexample:
  "find_one
     (db_contacts (snd (create_contact
        \<lparr>stdin = [''1'', ''Ana'', ''30'', ''555-ABC'', ''Ana@X.com''], stdout = [],
         db_contacts = [], calls = []\<rparr>)))
     (NAME_KEY, StrV (lower ''Ana''))
   \<noteq> Some [(ID_KEY, IntV 1), (NAME_KEY, StrV (lower ''Ana'')), (AGE_KEY, IntV 30),
            (PHONE_KEY, StrV ''555-ABC''), (EMAIL_KEY, StrV (lower ''Ana@X.com''))]
   \<and> find_one
     (db_contacts (snd (create_contact
        \<lparr>stdin = [''2'', ''Ana'', ''25'', ''555-2222'', ''Ana2@X.com''], stdout = [],
         db_contacts = [ana], calls = []\<rparr>)))
     (NAME_KEY, StrV (lower ''Ana''))
   \<noteq> Some [(ID_KEY, IntV 2), (NAME_KEY, StrV (lower ''Ana'')), (AGE_KEY, IntV 25),
            (PHONE_KEY, StrV ''555-2222''), (EMAIL_KEY, StrV (lower ''Ana2@X.com''))]"
  by code_simp

theorem insert_then_find_by_name_witness:
  "and_then create_contact (\<lambda>_. search_one)
     \<lparr>stdin = [''2'', ''Bob'', ''41'', ''555-ABC'', ''Bob@X.com'', ''BOB''], stdout = [],
      db_contacts = [ana], calls = []\<rparr> =
   (Inr (),
    \<lparr>stdin = [],
     stdout = create_prompts [] []
       @ [Created (Some (IntV 2)), Prompt ''Enter name to search: '', rule29,
          Card (IntV 2) ''bob'' (IntV 41) (StrV ''555-abc'') (StrV ''bob@x.com''), rule29],
     db_contacts = [ana, [(ID_KEY, IntV 2), (NAME_KEY, StrV ''bob''), (AGE_KEY, IntV 41),
                          (PHONE_KEY, StrV ''555-abc''), (EMAIL_KEY, StrV ''bob@x.com'')]],
     calls = [Insert_one [(ID_KEY, IntV 2), (NAME_KEY, StrV ''bob''), (AGE_KEY, IntV 41),
                          (PHONE_KEY, StrV ''555-abc''), (EMAIL_KEY, StrV ''bob@x.com'')],
              Find_one (NAME_KEY, StrV ''bob'')]\<rparr>)"
proof -
  have i: "py_int ''2'' = Inr 2" by code_simp
  have a: "py_int ''41'' = Inr 41" by code_simp
  have l: "lower ''Bob'' = ''bob''" "lower ''555-ABC'' = ''555-abc''"
    "lower ''Bob@X.com'' = ''bob@x.com''" "lower ''BOB'' = ''bob''"
    by code_simp+
  have fresh: "\<forall>d \<in> set [ana].
           map_of d ID_KEY \<noteq> Some (IntV 2) \<and> map_of d NAME_KEY \<noteq> Some (StrV ''bob'')"
    by code_simp
  from insert_then_find_by_name [of "[]" "''2''" 2 "[]" "''41''" 41
      "\<lparr>stdin = [''2'', ''Bob'', ''41'', ''555-ABC'', ''Bob@X.com'', ''BOB''], stdout = [],
        db_contacts = [ana], calls = []\<rparr>" "''Bob''" "''555-ABC''" "''Bob@X.com''" "''BOB''" "[]"]
    i a fresh
  show ?thesis by (simp add: l)
qed

section \<open>Deleting\<close>

lemma unique_ids_Nil [simp]: "unique_ids []"
  by (simp add: unique_ids_def)

lemma unique_ids_insert_one:
  "unique_ids c \<Longrightarrow> insert_one c d = Inr (r, c') \<Longrightarrow> unique_ids c'"
  by (fastforce simp: unique_ids_def insert_one_def split: if_splits)

lemma find_one_in: "find_one c flt = Some d \<Longrightarrow> d \<in> set c \<and> matches flt d"
  by (auto simp: find_one_def find_Some_iff)

lemma delete_first_unique:
  "unique_ids c \<Longrightarrow> contact \<in> set c \<Longrightarrow> map_of contact ID_KEY = Some i \<Longrightarrow>
   delete_first (ID_KEY, i) c = remove1 contact c"
proof (induction c)
  case Nil
  then show ?case by simp
next
  case (Cons d ds)
  show ?case
  proof (cases "d = contact")
    case True
    with Cons.prems show ?thesis by (simp add: matches_def)
  next
    case False
    with Cons.prems have "contact \<in> set ds" by simp
    with Cons.prems have "map_of d ID_KEY \<noteq> Some i"
      by (force simp: unique_ids_def)
    with False Cons show ?thesis by (simp add: matches_def unique_ids_def)
  qed
qed

lemma update_first_unique:
  "unique_ids c \<Longrightarrow> contact \<in> set c \<Longrightarrow> map_of contact ID_KEY = Some i \<Longrightarrow>
   update_first (ID_KEY, i) f c = map (\<lambda>d. if d = contact then f d else d) c"
proof (induction c)
  case Nil
  then show ?case by simp
next
  case (Cons d ds)
  show ?case
  proof (cases "d = contact")
    case True
    with Cons.prems have "contact \<notin> set ds"
      by (force simp: unique_ids_def)
    then have "map (\<lambda>d. if d = contact then f d else d) ds = ds"
      by (induction ds) auto
    with True Cons.prems show ?thesis by (simp add: matches_def)
  next
    case False
    with Cons.prems have "contact \<in> set ds" by simp
    with Cons.prems have "map_of d ID_KEY \<noteq> Some i"
      by (force simp: unique_ids_def)
    with False Cons show ?thesis by (simp add: matches_def unique_ids_def)
  qed
qed

lemma delete_Cons:
  "stdin w = q # rest \<Longrightarrow>
   delete w =
   (let contact = find_one (db_contacts w) (NAME_KEY, StrV q);
        w1 = w\<lparr>stdin := rest, stdout := stdout w @ [Prompt ''Enter name to delete: ''],
               calls := calls w @ [Find_one (NAME_KEY, StrV q)]\<rparr>
    in if \<not> truthy contact then (Inr (), w1\<lparr>stdout := stdout w1 @ [Not_found q]\<rparr>)
       else delete_found (the contact) w1)"
  by (simp add: delete_def and_then_def input_Cons db_find_one_def Let_def print_def)

lemma delete_found_Cons:
  "has_fields contact i n a p m \<Longrightarrow> stdin w = answer # rest \<Longrightarrow>
   delete_found contact w =
   delete_confirm contact answer
     (w\<lparr>stdin := rest,
        stdout := stdout w @ [rule19, Card i n a p m, rule19,
                              Prompt ''Are you sure you want to delete this contact? (Y/N) > '']\<rparr>)"
  by (simp add: delete_found_def and_then_def print_contact_card print_def input_Cons)

lemma delete_confirm_yes:
  "map_of contact ID_KEY = Some i \<Longrightarrow> lower answer \<in> {''y'', ''yes''} \<Longrightarrow>
   delete_confirm contact answer w =
   (Inr (), w\<lparr>stdout := stdout w @ [Line ''Contact deleted.''],
              db_contacts := delete_one (db_contacts w) (ID_KEY, i),
              calls := calls w @ [Delete_one (ID_KEY, i)]\<rparr>)"
  by (auto simp: delete_confirm_def getitem_def db_delete_one_def print_def)

lemma delete_confirm_no:
  "lower answer \<notin> {''y'', ''yes''} \<Longrightarrow> delete_confirm contact answer w = (Inr (), w)"
  by (simp add: delete_confirm_def)

lemma delete_reads:
  assumes "stdin w = q # answer # rest"
    and "find_one (db_contacts w) (NAME_KEY, StrV q) = Some contact"
    and "has_fields contact i n a p m"
  shows "delete w =
         delete_confirm contact answer
           (w\<lparr>stdin := rest,
              stdout := stdout w @ Prompt ''Enter name to delete: '' # shown (Card i n a p m),
              calls := calls w @ [Find_one (NAME_KEY, StrV q)]\<rparr>)"
  by (simp add: delete_Cons [OF assms(1)] assms(2) truthy_def has_fields_nonempty [OF assms(3)]
      delete_found_Cons [OF assms(3)] shown_def)
     (rule arg_cong [where f = "delete_confirm contact answer"], simp)

text \<open>
  Claim C10. Once \<open>delete\<close> has found and printed a contact, it calls \<open>delete_one\<close>
  exactly when the answer in lower case is \<open>y\<close> or \<open>yes\<close>; with any other answer
  it returns with the collection as it was and no call but the lookup.
\<close>

theorem delete_only_on_yes:
  assumes "stdin w = q # answer # rest"
    and "find_one (db_contacts w) (NAME_KEY, StrV q) = Some contact"
    and "has_fields contact i n a p m"
  shows "delete w =
         (Inr (),
          if lower answer = ''y'' \<or> lower answer = ''yes''
          then w\<lparr>stdin := rest,
                 stdout := stdout w @ Prompt ''Enter name to delete: '' # shown (Card i n a p m)
                   @ [Line ''Contact deleted.''],
                 db_contacts := delete_one (db_contacts w) (ID_KEY, i),
                 calls := calls w @ [Find_one (NAME_KEY, StrV q), Delete_one (ID_KEY, i)]\<rparr>
          else w\<lparr>stdin := rest,
                 stdout := stdout w @ Prompt ''Enter name to delete: '' # shown (Card i n a p m),
                 calls := calls w @ [Find_one (NAME_KEY, StrV q)]\<rparr>)"
proof -
  from assms(3) have i: "map_of contact ID_KEY = Some i" by (simp add: has_fields_def)
  show ?thesis
    by (cases "lower answer = ''y'' \<or> lower answer = ''yes''")
       (auto simp: delete_reads [OF assms] delete_confirm_yes [OF i] delete_confirm_no)
qed

theorem delete_only_on_yes_witness:
  "delete \<lparr>stdin = [''ana'', ''N''], stdout = [], db_contacts = [ana], calls = []\<rparr> =
   (Inr (),
    \<lparr>stdin = [],
     stdout = Prompt ''Enter name to delete: ''
       # shown (Card (IntV 1) ''ana'' (IntV 30) (StrV ''555-1111'') (StrV ''ana@x.com'')),
     db_contacts = [ana], calls = [Find_one (NAME_KEY, StrV ''ana'')]\<rparr>)
   \<and> delete \<lparr>stdin = [''ana'', ''Yes''], stdout = [], db_contacts = [ana], calls = []\<rparr> =
   (Inr (),
    \<lparr>stdin = [],
     stdout = Prompt ''Enter name to delete: ''
       # shown (Card (IntV 1) ''ana'' (IntV 30) (StrV ''555-1111'') (StrV ''ana@x.com''))
       @ [Line ''Contact deleted.''],
     db_contacts = [], calls = [Find_one (NAME_KEY, StrV ''ana''), Delete_one (ID_KEY, IntV 1)]\<rparr>)"
proof -
  have f: "find_one [ana] (NAME_KEY, StrV ''ana'') = Some ana" by code_simp
  have h: "has_fields ana (IntV 1) ''ana'' (IntV 30) (StrV ''555-1111'') (StrV ''ana@x.com'')"
    by code_simp
  have l: "lower ''N'' = ''n''" "lower ''Yes'' = ''yes''" by code_simp+
  have d: "delete_one [ana] (ID_KEY, IntV 1) = []" by code_simp
  from delete_only_on_yes [of "\<lparr>stdin = [''ana'', ''N''], stdout = [], db_contacts = [ana], calls = []\<rparr>"
      "''ana''" "''N''" "[]" ana, OF _ _ h]
    delete_only_on_yes [of "\<lparr>stdin = [''ana'', ''Yes''], stdout = [], db_contacts = [ana], calls = []\<rparr>"
      "''ana''" "''Yes''" "[]" ana, OF _ _ h] f
  show ?thesis by (simp add: l d)
qed

text \<open>
  Claim C3 fails on the code for \<open>delete\<close>. With the contact stored under \<open>ana\<close>,
  \<open>search_one\<close> finds it when the user types \<open>Ana\<close>, as does \<open>update\<close>; \<open>delete\<close>
  looks \<open>Ana\<close> up as typed (line 164 has no \<open>lower\<close>), reports that the contact is
  not found and deletes nothing.
\<close>

theorem delete_looks_up_the_name_as_typed:
  "search_one \<lparr>stdin = [''Ana''], stdout = [], db_contacts = [ana], calls = []\<rparr> =
   (Inr (),
    \<lparr>stdin = [],
     stdout = [Prompt ''Enter name to search: '', rule29,
               Card (IntV 1) ''ana'' (IntV 30) (StrV ''555-1111'') (StrV ''ana@x.com''), rule29],
     db_contacts = [ana], calls = [Find_one (NAME_KEY, StrV ''ana'')]\<rparr>)
   \<and> delete \<lparr>stdin = [''Ana'', ''y''], stdout = [], db_contacts = [ana], calls = []\<rparr> =
   (Inr (),
    \<lparr>stdin = [''y''], stdout = [Prompt ''Enter name to delete: '', Not_found ''Ana''],
     db_contacts = [ana], calls = [Find_one (NAME_KEY, StrV ''Ana'')]\<rparr>)"
  by code_simp

section \<open>Updating\<close>

lemma update_field_loop_refused:
  "stdin w = l # ls \<Longrightarrow> refused_field l \<Longrightarrow>
   update_field_loop w =
   update_field_loop (w\<lparr>stdin := ls, stdout := stdout w @ field_retries [l]\<rparr>)"
  by (cases "strip (lower l) = ''id''")
     (simp_all add: refused_field_def field_retries_def update_field_loop_id
       update_field_loop_unknown)

lemma update_field_loop_skip:
  "\<forall>l \<in> set junk. refused_field l \<Longrightarrow> stdin w = junk @ rest \<Longrightarrow>
   update_field_loop w =
   update_field_loop (w\<lparr>stdin := rest, stdout := stdout w @ field_retries junk\<rparr>)"
proof (induction junk arbitrary: w)
  case Nil
  then have "w\<lparr>stdin := rest, stdout := stdout w @ field_retries []\<rparr> = w"
    by (cases w) (simp add: field_retries_def)
  then show ?case by simp
next
  case (Cons j junk)
  from Cons.prems have "update_field_loop w =
      update_field_loop (w\<lparr>stdin := junk @ rest, stdout := stdout w @ field_retries [j]\<rparr>)"
    by (simp add: update_field_loop_refused [of w j "junk @ rest"])
  also have "\<dots> = update_field_loop (w\<lparr>stdin := rest, stdout := stdout w @ field_retries (j # junk)\<rparr>)"
    using Cons.prems
    by (subst Cons.IH) (simp_all add: field_retries_def)
  finally show ?case .
qed

lemma update_field_loop_reads:
  assumes "\<forall>l \<in> set junk. refused_field l" and "\<not> refused_field fl"
    and "stdin w = junk @ fl # rest"
  shows "update_field_loop w =
         (Inr (field_of fl),
          w\<lparr>stdin := rest,
            stdout := stdout w @ field_retries junk @ [Prompt ''What field do you want to update? '']\<rparr>)"
  using assms
  by (simp add: update_field_loop_skip [of junk w "fl # rest"]
      update_field_loop_accept [of _ fl rest] refused_field_def)

lemma update_value_loop_skip:
  "\<forall>l \<in> set junk. py_int (lower l) = Inl ValueError \<Longrightarrow> stdin w = junk @ rest \<Longrightarrow>
   update_value_loop AGE_KEY w =
   update_value_loop AGE_KEY
     (w\<lparr>stdin := rest,
        stdout := stdout w
          @ retries ''Enter the value: '' ''Age must be a number. Please try again.'' junk\<rparr>)"
proof (induction junk arbitrary: w)
  case Nil
  then have "w\<lparr>stdin := rest,
      stdout := stdout w @ retries ''Enter the value: '' ''Age must be a number. Please try again.'' []\<rparr> = w"
    by (cases w) simp
  then show ?case by simp
next
  case (Cons j junk)
  from Cons.prems have "update_value_loop AGE_KEY w =
      update_value_loop AGE_KEY
        (w\<lparr>stdin := junk @ rest,
           stdout := stdout w @ [Prompt ''Enter the value: '',
                                 Line ''Age must be a number. Please try again.'']\<rparr>)"
    by (simp add: update_value_loop_retry [of w j "junk @ rest"])
  also have "\<dots> = update_value_loop AGE_KEY
     (w\<lparr>stdin := rest,
        stdout := stdout w
          @ retries ''Enter the value: '' ''Age must be a number. Please try again.'' (j # junk)\<rparr>)"
    using Cons.prems
    by (subst Cons.IH) simp_all
  finally show ?case .
qed

lemma update_value_loop_reads:
  assumes "\<forall>l \<in> set junk. py_int (lower l) = Inl ValueError" and "py_int (lower vl) = Inr v"
    and "stdin w = junk @ vl # rest"
  shows "update_value_loop AGE_KEY w =
         (Inr (IntV v),
          w\<lparr>stdin := rest,
            stdout := stdout w
              @ retries ''Enter the value: '' ''Age must be a number. Please try again.'' junk
              @ [Prompt ''Enter the value: '']\<rparr>)"
  using assms
  by (simp add: update_value_loop_skip [of junk w "vl # rest"]
      update_value_loop_accept [of _ vl rest])

text \<open>
  For a field other than the age, the loop of lines 138 to 146 returns no value: it
  reads every line there is and ends with the input.
\<close>

lemma update_value_loop_never:
  "field \<noteq> AGE_KEY \<Longrightarrow>
   update_value_loop field w =
   (Inl EOFError,
    w\<lparr>stdin := [],
      stdout := stdout w @ replicate (Suc (length (stdin w))) (Prompt ''Enter the value: '')\<rparr>)"
proof (induction xs \<equiv> "stdin w" arbitrary: w)
  case Nil
  then have "stdin w = []" by simp
  then show ?case by (simp add: update_value_loop_Nil)
next
  case (Cons l ls)
  then have st: "stdin w = l # ls" by simp
  from Cons(1) [of "w\<lparr>stdin := ls, stdout := stdout w @ [Prompt ''Enter the value: '']\<rparr>"]
    Cons(3) st
  show ?case
    by (simp add: update_value_loop_other [OF st] replicate_append_same)
qed

text \<open>
  Claim C1 fails on the code. The loop of lines 138 to 146 leaves only through the
  branch of the age: for the field \<open>name\<close> every value entered is followed by the
  prompt again, until the input ends; \<open>update_one\<close> is never called and the contact
  keeps its name.
\<close>

theorem update_of_name_never_reaches_the_store:
  "update \<lparr>stdin = [''ana'', ''name'', ''bob'', ''bob'', ''bob''], stdout = [],
           db_contacts = [ana], calls = []\<rparr> =
   (Inl EOFError,
    \<lparr>stdin = [],
     stdout = [Prompt ''Enter name to search: '', rule19,
               Card (IntV 1) ''ana'' (IntV 30) (StrV ''555-1111'') (StrV ''ana@x.com''), rule19,
               Prompt ''What field do you want to update? '',
               Prompt ''Enter the value: '', Prompt ''Enter the value: '',
               Prompt ''Enter the value: '', Prompt ''Enter the value: ''],
     db_contacts = [ana], calls = [Find_one (NAME_KEY, StrV ''ana'')]\<rparr>)"
  by code_simp

lemma find_one_by_id:
  "unique_ids c \<Longrightarrow> contact \<in> set c \<Longrightarrow> map_of contact ID_KEY = Some i \<Longrightarrow>
   find_one c (ID_KEY, i) = Some contact"
proof (induction c)
  case Nil
  then show ?case by simp
next
  case (Cons d ds)
  show ?case
  proof (cases "d = contact")
    case True
    with Cons.prems show ?thesis by (simp add: find_one_def matches_def)
  next
    case False
    with Cons.prems have "contact \<in> set ds" by simp
    with Cons.prems have "map_of d ID_KEY \<noteq> Some i"
      by (force simp: unique_ids_def)
    with False Cons show ?thesis by (simp add: find_one_def matches_def unique_ids_def)
  qed
qed

lemma update_one_by_id:
  assumes "unique_ids c" and "contact \<in> set c" and "map_of contact ID_KEY = Some i"
  shows "update_one c (ID_KEY, i) (f, v) =
         (\<lparr>update_acknowledged = True, matched_count = 1,
           modified_count = (if AList.update f v contact = contact then 0 else 1),
           upserted_id = None\<rparr>,
          map (\<lambda>d. if d = contact then AList.update f v d else d) c)"
  by (simp add: update_one_def find_one_by_id [OF assms] update_first_unique [OF assms])

lemma update_first_ids:
  "f \<noteq> ID_KEY \<Longrightarrow>
   map (\<lambda>d. map_of d ID_KEY) (update_first flt (AList.update f v) c) = map (\<lambda>d. map_of d ID_KEY) c"
  by (induction c) (simp_all add: update_conv')

lemma update_one_ids:
  "f \<noteq> ID_KEY \<Longrightarrow>
   map (\<lambda>d. map_of d ID_KEY) (snd (update_one c flt (f, v))) = map (\<lambda>d. map_of d ID_KEY) c"
  by (simp add: update_one_def update_first_ids split: option.splits)

lemma update_store_result:
  "map_of contact ID_KEY = Some i \<Longrightarrow>
   update_store contact field v w =
   (let (r, c) = update_one (db_contacts w) (ID_KEY, i) (field, v)
    in (Inr (),
        w\<lparr>stdout := stdout w @ [Updated (matched_count r) (upserted_id r),
                                Raw_result (matched_count r) (modified_count r)],
          db_contacts := c,
          calls := calls w @ [Update_one (ID_KEY, i) (field, v)]\<rparr>))"
  by (auto simp: update_store_def getitem_def db_update_one_def print_def update_one_def
      split: option.splits)

lemma update_Nil:
  "stdin w = [] \<Longrightarrow>
   update w = (Inl EOFError, w\<lparr>stdout := stdout w @ [Prompt ''Enter name to search: '']\<rparr>)"
  by (simp add: update_def and_then_def input_Nil)

lemma update_Cons:
  "stdin w = q # rest \<Longrightarrow>
   update w =
   (let contact = find_one (db_contacts w) (NAME_KEY, StrV (lower q));
        w1 = w\<lparr>stdin := rest, stdout := stdout w @ [Prompt ''Enter name to search: ''],
               calls := calls w @ [Find_one (NAME_KEY, StrV (lower q))]\<rparr>
    in if \<not> truthy contact then (Inr (), w1\<lparr>stdout := stdout w1 @ [Not_found (lower q)]\<rparr>)
       else update_found (the contact) w1)"
  by (simp add: update_def and_then_def input_Cons db_find_one_def Let_def print_def)

lemma update_found_card:
  "has_fields contact i n a p m \<Longrightarrow>
   update_found contact w =
   and_then update_field_loop (\<lambda>field.
     and_then (update_value_loop field) (\<lambda>v. update_store contact field v))
     (w\<lparr>stdout := stdout w @ [rule19, Card i n a p m, rule19]\<rparr>)"
  by (simp add: update_found_def and_then_def print_contact_card print_def)

lemma field_of_not_refused:
  "field_of fl \<in> {NAME_KEY, AGE_KEY, PHONE_KEY, EMAIL_KEY} \<Longrightarrow> \<not> refused_field fl"
  by (auto simp: refused_field_def field_of_def Let_def NAME_KEY_def AGE_KEY_def PHONE_KEY_def
      EMAIL_KEY_def split: if_splits)

lemma update_age_reads:
  assumes "stdin w = q # junkf @ fl # junkv @ vl # rest"
    and "find_one (db_contacts w) (NAME_KEY, StrV (lower q)) = Some contact"
    and "has_fields contact i n a p m"
    and "\<forall>l \<in> set junkf. refused_field l" and "field_of fl = AGE_KEY"
    and "\<forall>l \<in> set junkv. py_int (lower l) = Inl ValueError" and "py_int (lower vl) = Inr v"
  shows "update w =
         update_store contact AGE_KEY (IntV v)
           (w\<lparr>stdin := rest,
              stdout := stdout w @ update_prompts (Card i n a p m) junkf junkv,
              calls := calls w @ [Find_one (NAME_KEY, StrV (lower q))]\<rparr>)"
proof -
  define w1 where "w1 = w\<lparr>stdin := junkf @ fl # junkv @ vl # rest,
      stdout := stdout w @ [Prompt ''Enter name to search: '', rule19, Card i n a p m, rule19],
      calls := calls w @ [Find_one (NAME_KEY, StrV (lower q))]\<rparr>"
  have nr: "\<not> refused_field fl" by (rule field_of_not_refused) (simp add: assms(5))
  have "update w =
      and_then update_field_loop (\<lambda>field.
        and_then (update_value_loop field) (\<lambda>v. update_store contact field v)) w1"
    by (simp add: update_Cons [OF assms(1)] assms(2) truthy_def has_fields_nonempty [OF assms(3)]
        update_found_card [OF assms(3)] w1_def)
       (rule arg_cong [where f = "and_then update_field_loop (\<lambda>field.
        and_then (update_value_loop field) (\<lambda>v. update_store contact field v))"], simp)
  also have "\<dots> = update_store contact AGE_KEY (IntV v)
           (w\<lparr>stdin := rest,
              stdout := stdout w @ update_prompts (Card i n a p m) junkf junkv,
              calls := calls w @ [Find_one (NAME_KEY, StrV (lower q))]\<rparr>)"
  proof -
    define w2 where "w2 = w1\<lparr>stdin := junkv @ vl # rest,
        stdout := stdout w1 @ field_retries junkf @ [Prompt ''What field do you want to update? '']\<rparr>"
    define w3 where "w3 = w2\<lparr>stdin := rest,
        stdout := stdout w2
          @ retries ''Enter the value: '' ''Age must be a number. Please try again.'' junkv
          @ [Prompt ''Enter the value: '']\<rparr>"
    have "stdin w1 = junkf @ fl # junkv @ vl # rest" by (simp add: w1_def)
    from update_field_loop_reads [OF assms(4) nr this]
    have f: "update_field_loop w1 = (Inr AGE_KEY, w2)" by (simp add: assms(5) w2_def)
    have "stdin w2 = junkv @ vl # rest" by (simp add: w2_def)
    from update_value_loop_reads [OF assms(6,7) this]
    have v: "update_value_loop AGE_KEY w2 = (Inr (IntV v), w3)" by (simp add: w3_def)
    have "w3 = w\<lparr>stdin := rest,
              stdout := stdout w @ update_prompts (Card i n a p m) junkf junkv,
              calls := calls w @ [Find_one (NAME_KEY, StrV (lower q))]\<rparr>"
      by (simp add: w3_def w2_def w1_def update_prompts_def)
    with f v show ?thesis by (simp add: and_then_def)
  qed
  finally show ?thesis .
qed

text \<open>
  Claim C9. \<open>update\<close> and \<open>delete\<close> look the contact up by name, print it, and call
  \<open>update_one\<close> and \<open>delete_one\<close> with the filter on the id of the contact found. With
  unique ids the document changed or removed is the contact printed and no other,
  whether or not other contacts have the same name.
\<close>

theorem mutation_hits_the_contact_shown:
  assumes "unique_ids (db_contacts w)"
    and "find_one (db_contacts w) (NAME_KEY, StrV name) = Some contact"
    and "has_fields contact i n a p m"
  shows "(stdin w = name # answer # rest \<and> (lower answer = ''y'' \<or> lower answer = ''yes'') \<longrightarrow>
          delete w =
          (Inr (),
           w\<lparr>stdin := rest,
             stdout := stdout w @ Prompt ''Enter name to delete: '' # shown (Card i n a p m)
               @ [Line ''Contact deleted.''],
             db_contacts := remove1 contact (db_contacts w),
             calls := calls w @ [Find_one (NAME_KEY, StrV name), Delete_one (ID_KEY, i)]\<rparr>))
       \<and> (stdin w = q # junkf @ fl # junkv @ vl # rest \<and> lower q = name
           \<and> (\<forall>l \<in> set junkf. refused_field l) \<and> field_of fl = AGE_KEY
           \<and> (\<forall>l \<in> set junkv. py_int (lower l) = Inl ValueError) \<and> py_int (lower vl) = Inr v \<longrightarrow>
          update w =
          (Inr (),
           w\<lparr>stdin := rest,
             stdout := stdout w @ update_prompts (Card i n a p m) junkf junkv
               @ [Updated 1 None,
                  Raw_result 1 (if AList.update AGE_KEY (IntV v) contact = contact then 0 else 1)],
             db_contacts :=
               map (\<lambda>d. if d = contact then AList.update AGE_KEY (IntV v) d else d) (db_contacts w),
             calls := calls w @ [Find_one (NAME_KEY, StrV name),
                                 Update_one (ID_KEY, i) (AGE_KEY, IntV v)]\<rparr>))"
proof (intro conjI impI)
  from assms(2) have mem: "contact \<in> set (db_contacts w)" by (simp add: find_one_in)
  from assms(3) have i: "map_of contact ID_KEY = Some i" by (simp add: has_fields_def)
  {
    assume a: "stdin w = name # answer # rest \<and> (lower answer = ''y'' \<or> lower answer = ''yes'')"
    then have st: "stdin w = name # answer # rest" by simp
    from a show "delete w =
          (Inr (),
           w\<lparr>stdin := rest,
             stdout := stdout w @ Prompt ''Enter name to delete: '' # shown (Card i n a p m)
               @ [Line ''Contact deleted.''],
             db_contacts := remove1 contact (db_contacts w),
             calls := calls w @ [Find_one (NAME_KEY, StrV name), Delete_one (ID_KEY, i)]\<rparr>)"
      by (auto simp: delete_reads [OF st assms(2,3)] delete_confirm_yes [OF i]
          delete_one_def delete_first_unique [OF assms(1) mem i])
  next
    assume a: "stdin w = q # junkf @ fl # junkv @ vl # rest \<and> lower q = name
           \<and> (\<forall>l \<in> set junkf. refused_field l) \<and> field_of fl = AGE_KEY
           \<and> (\<forall>l \<in> set junkv. py_int (lower l) = Inl ValueError) \<and> py_int (lower vl) = Inr v"
    then have st: "stdin w = q # junkf @ fl # junkv @ vl # rest" and q: "lower q = name"
      and jf: "\<forall>l \<in> set junkf. refused_field l" and fl: "field_of fl = AGE_KEY"
      and jv: "\<forall>l \<in> set junkv. py_int (lower l) = Inl ValueError" and vl: "py_int (lower vl) = Inr v"
      by simp_all
    from assms(2) q have f: "find_one (db_contacts w) (NAME_KEY, StrV (lower q)) = Some contact"
      by simp
    show "update w =
          (Inr (),
           w\<lparr>stdin := rest,
             stdout := stdout w @ update_prompts (Card i n a p m) junkf junkv
               @ [Updated 1 None,
                  Raw_result 1 (if AList.update AGE_KEY (IntV v) contact = contact then 0 else 1)],
             db_contacts :=
               map (\<lambda>d. if d = contact then AList.update AGE_KEY (IntV v) d else d) (db_contacts w),
             calls := calls w @ [Find_one (NAME_KEY, StrV name),
                                 Update_one (ID_KEY, i) (AGE_KEY, IntV v)]\<rparr>)"
      by (simp add: update_age_reads [OF st f assms(3) jf fl jv vl] update_store_result [OF i]
          update_one_by_id [OF assms(1) mem i] q)
  }
qed

theorem mutation_hits_the_contact_shown_witness:
  "delete \<lparr>stdin = [''ana'', ''y''], stdout = [], db_contacts = [ana, namesake], calls = []\<rparr> =
   (Inr (),
    \<lparr>stdin = [],
     stdout = Prompt ''Enter name to delete: ''
       # shown (Card (IntV 1) ''ana'' (IntV 30) (StrV ''555-1111'') (StrV ''ana@x.com''))
       @ [Line ''Contact deleted.''],
     db_contacts = [namesake],
     calls = [Find_one (NAME_KEY, StrV ''ana''), Delete_one (ID_KEY, IntV 1)]\<rparr>)
   \<and> update \<lparr>stdin = [''Ana'', ''id'', ''Age'', ''x'', ''31''], stdout = [],
              db_contacts = [ana, namesake], calls = []\<rparr> =
   (Inr (),
    \<lparr>stdin = [],
     stdout = update_prompts (Card (IntV 1) ''ana'' (IntV 30) (StrV ''555-1111'') (StrV ''ana@x.com''))
                [''id''] [''x'']
       @ [Updated 1 None, Raw_result 1 1],
     db_contacts = [[(ID_KEY, IntV 1), (NAME_KEY, StrV ''ana''), (AGE_KEY, IntV 31),
                     (PHONE_KEY, StrV ''555-1111''), (EMAIL_KEY, StrV ''ana@x.com'')], namesake],
     calls = [Find_one (NAME_KEY, StrV ''ana''), Update_one (ID_KEY, IntV 1) (AGE_KEY, IntV 31)]\<rparr>)"
proof -
  have u: "unique_ids [ana, namesake]" by code_simp
  have f: "find_one [ana, namesake] (NAME_KEY, StrV ''ana'') = Some ana" by code_simp
  have h: "has_fields ana (IntV 1) ''ana'' (IntV 30) (StrV ''555-1111'') (StrV ''ana@x.com'')"
    by code_simp
  have l: "lower ''y'' = ''y''" "lower ''Ana'' = ''ana''" by code_simp+
  have r: "\<forall>l \<in> set [''id'']. refused_field l" by code_simp
  have a: "field_of ''Age'' = AGE_KEY" by code_simp
  have x: "\<forall>l \<in> set [''x'']. py_int (lower l) = Inl ValueError" by code_simp
  have v: "py_int (lower ''31'') = Inr 31" by code_simp
  have d: "remove1 ana [ana, namesake] = [namesake]" by code_simp
  have m: "namesake \<noteq> ana"
    "AList.update AGE_KEY (IntV 31) ana =
      [(ID_KEY, IntV 1), (NAME_KEY, StrV ''ana''), (AGE_KEY, IntV 31),
       (PHONE_KEY, StrV ''555-1111''), (EMAIL_KEY, StrV ''ana@x.com'')]"
    by code_simp+
  have c: "[(ID_KEY, IntV 1), (NAME_KEY, StrV ''ana''), (AGE_KEY, IntV 31),
       (PHONE_KEY, StrV ''555-1111''), (EMAIL_KEY, StrV ''ana@x.com'')] \<noteq> ana"
    by code_simp
  from mutation_hits_the_contact_shown [of
      "\<lparr>stdin = [''ana'', ''y''], stdout = [], db_contacts = [ana, namesake], calls = []\<rparr>"
      "''ana''" ana _ _ _ _ _ "''y''" "[]", OF _ _ h]
    mutation_hits_the_contact_shown [of
      "\<lparr>stdin = [''Ana'', ''id'', ''Age'', ''x'', ''31''], stdout = [],
        db_contacts = [ana, namesake], calls = []\<rparr>"
      "''ana''" ana _ _ _ _ _ _ "[]" "''Ana''" "[''id'']" "''Age''" "[''x'']" "''31''" 31, OF _ _ h]
    u f r a x v
  show ?thesis by (simp add: l d m c)
qed

section \<open>What update changes\<close>

lemma print_contact_outcome:
  assumes "print_contact contact w = (r, w')"
  shows "db_contacts w' = db_contacts w \<and> calls w' = calls w
       \<and> (r = Inr () \<longrightarrow> (\<exists>i n a p m. has_fields contact i n a p m))"
  using assms
  by (auto simp: print_contact_def getitem_def has_fields_def print_def
      split: option.splits val.splits)

lemma update_field_loop_outcome:
  "update_field_loop w = (r, w') \<Longrightarrow>
   db_contacts w' = db_contacts w \<and> calls w' = calls w
   \<and> (\<forall>f. r = Inr f \<longrightarrow> f \<in> {NAME_KEY, AGE_KEY, PHONE_KEY, EMAIL_KEY})"
proof (induction xs \<equiv> "stdin w" arbitrary: w)
  case Nil
  then have "stdin w = []" by simp
  with Nil(2) show ?case by (auto simp: update_field_loop_Nil)
next
  case (Cons l ls)
  then have st: "stdin w = l # ls" by simp
  show ?case
  proof (cases "refused_field l")
    case True
    with Cons(3) have "update_field_loop (w\<lparr>stdin := ls, stdout := stdout w @ field_retries [l]\<rparr>) = (r, w')"
      by (simp add: update_field_loop_refused [OF st])
    from Cons(1) [OF _ this] show ?thesis by simp
  next
    case False
    with Cons(3) show ?thesis
      by (auto simp: update_field_loop_accept [OF st] refused_field_def)
  qed
qed

lemma update_value_loop_outcome:
  "update_value_loop field w = (r, w') \<Longrightarrow>
   db_contacts w' = db_contacts w \<and> calls w' = calls w
   \<and> (\<forall>v. r = Inr v \<longrightarrow> field = AGE_KEY \<and> (\<exists>n. v = IntV n))"
proof (induction xs \<equiv> "stdin w" arbitrary: w)
  case Nil
  then have "stdin w = []" by simp
  with Nil(2) show ?case by (auto simp: update_value_loop_Nil)
next
  case (Cons l ls)
  then have st: "stdin w = l # ls" by simp
  show ?case
  proof (cases "field = AGE_KEY")
    case False
    with Cons(3) show ?thesis by (auto simp: update_value_loop_never)
  next
    case True
    show ?thesis
    proof (cases "py_int (lower l)")
      case (Inr n)
      with Cons(3) True show ?thesis by (auto simp: update_value_loop_accept [OF st])
    next
      case (Inl e)
      with Cons(3) True have "update_value_loop field
          (w\<lparr>stdin := ls,
             stdout := stdout w @ [Prompt ''Enter the value: '',
                                   Line ''Age must be a number. Please try again.'']\<rparr>) = (r, w')"
        by (simp add: update_value_loop_retry [OF st])
      from Cons(1) [OF _ this] show ?thesis by simp
    qed
  qed
qed

lemma print_contact_stdin: "print_contact contact w = (r, w') \<Longrightarrow> stdin w' = stdin w"
  by (auto simp: print_contact_def getitem_def print_def split: option.splits val.splits)

lemma update_store_stdin: "update_store contact field v w = (r, w') \<Longrightarrow> stdin w' = stdin w"
  by (auto simp: update_store_def getitem_def db_update_one_def print_def
      split: option.splits prod.splits if_splits)

lemma update_field_loop_consumed:
  "update_field_loop w = (Inr f, w') \<Longrightarrow>
   \<exists>junk fl. stdin w = junk @ fl # stdin w' \<and> (\<forall>l \<in> set junk. refused_field l)
     \<and> \<not> refused_field fl \<and> f = field_of fl"
proof (induction xs \<equiv> "stdin w" arbitrary: w)
  case Nil
  then have "stdin w = []" by simp
  with Nil(2) show ?case by (simp add: update_field_loop_Nil)
next
  case (Cons l ls)
  then have st: "stdin w = l # ls" by simp
  show ?case
  proof (cases "refused_field l")
    case True
    with Cons(3)
    have "update_field_loop (w\<lparr>stdin := ls, stdout := stdout w @ field_retries [l]\<rparr>) = (Inr f, w')"
      by (simp add: update_field_loop_refused [OF st])
    from Cons(1) [OF _ this] obtain junk fl where "ls = junk @ fl # stdin w'"
      "\<forall>l \<in> set junk. refused_field l" "\<not> refused_field fl" "f = field_of fl"
      by auto
    with st True show ?thesis
      by (intro exI [of _ "l # junk"] exI [of _ fl]) simp
  next
    case False
    with Cons(3) have "f = field_of l" "stdin w' = ls"
      by (auto simp: update_field_loop_accept [OF st] refused_field_def)
    with st False show ?thesis
      by (intro exI [of _ "[]"] exI [of _ l]) simp
  qed
qed

lemma update_value_loop_consumed:
  "update_value_loop AGE_KEY w = (Inr x, w') \<Longrightarrow>
   \<exists>junk vl n. stdin w = junk @ vl # stdin w' \<and> (\<forall>l \<in> set junk. py_int (lower l) = Inl ValueError)
     \<and> py_int (lower vl) = Inr n \<and> x = IntV n"
proof (induction xs \<equiv> "stdin w" arbitrary: w)
  case Nil
  then have "stdin w = []" by simp
  with Nil(2) show ?case by (simp add: update_value_loop_Nil)
next
  case (Cons l ls)
  then have st: "stdin w = l # ls" by simp
  show ?case
  proof (cases "py_int (lower l)")
    case (Inr n)
    with Cons(3) have "x = IntV n" "stdin w' = ls"
      by (auto simp: update_value_loop_accept [OF st])
    with st Inr show ?thesis
      by (intro exI [of _ "[]"] exI [of _ l] exI [of _ n]) simp
  next
    case (Inl e)
    then have e: "py_int (lower l) = Inl ValueError" by (simp add: py_int_error)
    from Inl Cons(3) have "update_value_loop AGE_KEY
        (w\<lparr>stdin := ls,
           stdout := stdout w @ [Prompt ''Enter the value: '',
                                 Line ''Age must be a number. Please try again.'']\<rparr>) = (Inr x, w')"
      by (simp add: update_value_loop_retry [OF st])
    from Cons(1) [OF _ this] obtain junk vl n where "ls = junk @ vl # stdin w'"
      "\<forall>l \<in> set junk. py_int (lower l) = Inl ValueError" "py_int (lower vl) = Inr n" "x = IntV n"
      by auto
    with st e show ?thesis
      by (intro exI [of _ "l # junk"] exI [of _ vl] exI [of _ n]) simp
  qed
qed

lemma update_found_outcome:
  assumes "update_found contact w1 = (r, w')"
  obtains (unchanged) e where "r = Inl e" "db_contacts w' = db_contacts w1" "calls w' = calls w1"
  | (updated) i n a p m v junkf fl junkv vl where "has_fields contact i n a p m" "r = Inr ()"
      "db_contacts w' = snd (update_one (db_contacts w1) (ID_KEY, i) (AGE_KEY, IntV v))"
      "calls w' = calls w1 @ [Update_one (ID_KEY, i) (AGE_KEY, IntV v)]"
      "stdin w1 = junkf @ fl # junkv @ vl # stdin w'"
      "\<forall>l \<in> set junkf. refused_field l" "field_of fl = AGE_KEY"
      "\<forall>l \<in> set junkv. py_int (lower l) = Inl ValueError" "py_int (lower vl) = Inr v"
proof -
  obtain r1 w3 where p: "print_contact contact (print rule19 w1) = (r1, w3)"
    by (cases "print_contact contact (print rule19 w1)")
  from print_contact_outcome [OF p]
  have s3: "db_contacts w3 = db_contacts w1" "calls w3 = calls w1"
    and h: "r1 = Inr () \<Longrightarrow> \<exists>i n a p m. has_fields contact i n a p m"
    by (simp_all add: print_def)
  from print_contact_stdin [OF p] have i3: "stdin w3 = stdin w1" by simp
  show ?thesis
  proof (cases r1)
    case (Inl e)
    with assms p s3 show ?thesis by (intro unchanged [of e]) (auto simp: update_found_def and_then_def)
  next
    case (Inr u)
    with h obtain i n a p m where hf: "has_fields contact i n a p m" by auto
    then have i: "map_of contact ID_KEY = Some i" by (simp add: has_fields_def)
    obtain r2 w4 where f: "update_field_loop (print rule19 w3) = (r2, w4)"
      by (cases "update_field_loop (print rule19 w3)")
    from update_field_loop_outcome [OF f] s3
    have s4: "db_contacts w4 = db_contacts w1" "calls w4 = calls w1" by (simp_all add: print_def)
    show ?thesis
    proof (cases r2)
      case (Inl e)
      with assms p Inr f s4 show ?thesis
        by (intro unchanged [of e]) (auto simp: update_found_def and_then_def)
    next
      case field: (Inr field)
      from update_field_loop_consumed [OF f [unfolded field]] i3
      obtain junkf fl where i4: "stdin w1 = junkf @ fl # stdin w4"
        and jf: "\<forall>l \<in> set junkf. refused_field l" and fl: "field = field_of fl"
        by auto
      obtain r3 w6 where v: "update_value_loop field w4 = (r3, w6)"
        by (cases "update_value_loop field w4")
      from update_value_loop_outcome [OF v] s4
      have s6: "db_contacts w6 = db_contacts w1" "calls w6 = calls w1"
        and val: "\<And>x. r3 = Inr x \<Longrightarrow> field = AGE_KEY"
        by simp_all
      show ?thesis
      proof (cases r3)
        case (Inl e)
        with assms p Inr f field v s6 show ?thesis
          by (intro unchanged [of e]) (auto simp: update_found_def and_then_def)
      next
        case x: (Inr x)
        with val have age: "field = AGE_KEY" by simp
        from update_value_loop_consumed [OF v [unfolded x age]]
        obtain junkv vl n' where i6: "stdin w4 = junkv @ vl # stdin w6"
          and jv: "\<forall>l \<in> set junkv. py_int (lower l) = Inl ValueError"
          and vl: "py_int (lower vl) = Inr n'" and xn: "x = IntV n'"
          by auto
        from assms p Inr f field v x age xn
        have st: "update_store contact AGE_KEY (IntV n') w6 = (r, w')"
          by (simp add: update_found_def and_then_def)
        from update_store_stdin [OF st] i4 i6
        have inp: "stdin w1 = junkf @ fl # junkv @ vl # stdin w'" by simp
        from fl age have fa: "field_of fl = AGE_KEY" by simp
        from st s6 show ?thesis
          by (intro updated [OF hf _ _ _ inp jf fa jv vl])
             (auto simp: update_store_result [OF i] split: prod.splits)
      qed
    qed
  qed
qed

text \<open>
  Every run of \<open>update\<close> is of one of four kinds: the input has ended; no contact of that
  name is found; the contact is found and the run ends in an exception before the
  collection is called again; or the age of the contact found is set by one call of
  \<open>update_one\<close>, to the integer of the first line that parses, entered after the first
  line that selects a field.
\<close>

lemma update_outcome:
  assumes "update w = (r, w')"
  obtains (eof) "stdin w = []" "r = Inl EOFError" "db_contacts w' = db_contacts w"
      "calls w' = calls w"
  | (not_found) q rest where "stdin w = q # rest"
      "\<not> truthy (find_one (db_contacts w) (NAME_KEY, StrV (lower q)))" "r = Inr ()"
      "db_contacts w' = db_contacts w" "calls w' = calls w @ [Find_one (NAME_KEY, StrV (lower q))]"
  | (failed) q rest e where "stdin w = q # rest" "r = Inl e"
      "db_contacts w' = db_contacts w" "calls w' = calls w @ [Find_one (NAME_KEY, StrV (lower q))]"
  | (updated) q rest contact i n a p m v junkf fl junkv vl where "stdin w = q # rest"
      "find_one (db_contacts w) (NAME_KEY, StrV (lower q)) = Some contact"
      "has_fields contact i n a p m" "r = Inr ()"
      "db_contacts w' = snd (update_one (db_contacts w) (ID_KEY, i) (AGE_KEY, IntV v))"
      "calls w' = calls w @ [Find_one (NAME_KEY, StrV (lower q)),
                              Update_one (ID_KEY, i) (AGE_KEY, IntV v)]"
      "rest = junkf @ fl # junkv @ vl # stdin w'"
      "\<forall>l \<in> set junkf. refused_field l" "field_of fl = AGE_KEY"
      "\<forall>l \<in> set junkv. py_int (lower l) = Inl ValueError" "py_int (lower vl) = Inr v"
proof (cases "stdin w")
  case Nil
  with assms show ?thesis by (intro eof) (auto simp: update_Nil)
next
  case (Cons q rest)
  define w1 where "w1 = w\<lparr>stdin := rest, stdout := stdout w @ [Prompt ''Enter name to search: ''],
               calls := calls w @ [Find_one (NAME_KEY, StrV (lower q))]\<rparr>"
  show ?thesis
  proof (cases "truthy (find_one (db_contacts w) (NAME_KEY, StrV (lower q)))")
    case False
    with assms show ?thesis
      by (intro not_found [OF Cons]) (auto simp: update_Cons [OF Cons] Let_def)
  next
    case True
    then obtain contact where c: "find_one (db_contacts w) (NAME_KEY, StrV (lower q)) = Some contact"
      by (auto simp: truthy_def split: option.splits)
    with assms True have "update_found contact w1 = (r, w')"
      by (simp add: update_Cons [OF Cons] Let_def w1_def)
    then show ?thesis
    proof (cases rule: update_found_outcome)
      case (unchanged e)
      then show ?thesis by (intro failed [OF Cons, of e]) (simp_all add: w1_def)
    next
      case (updated i n a p m v junkf fl junkv vl)
      then show ?thesis
        by (intro that(4) [OF Cons c, of i n a p m v junkf fl junkv vl]) (simp_all add: w1_def)
    qed
  qed
qed

lemma update_keeps_other_fields:
  assumes "map_of contact field = Some old"
  shows "map_of (AList.update field v contact) field = Some v
       \<and> map fst (AList.update field v contact) = map fst contact
       \<and> (\<forall>k. k \<noteq> field \<longrightarrow> map_of (AList.update field v contact) k = map_of contact k)"
proof -
  from assms have "(field, old) \<in> set contact" by (rule map_of_SomeD)
  then have "field \<in> set (map fst contact)" by force
  then show ?thesis by (simp add: update_conv' update_keys)
qed

text \<open>
  Claim C5. When \<open>update\<close> returns normally on a collection with unique ids, either no
  contact was found and the collection is unchanged, or the field selected by the first
  line that is not refused has, in the contact found, the value entered on the first
  line that is accepted as its value: that contact keeps its keys and the values of its
  other fields, and every other document of the collection is as it was. (The loop of
  the value accepts a line for the age only, so the field is the age and the value the
  integer of that line.)
\<close>

theorem update_changes_one_field_of_one_contact:
  assumes "update w = (Inr (), w')" and "unique_ids (db_contacts w)"
  shows "\<exists>q rest. stdin w = q # rest \<and>
     (case find_one (db_contacts w) (NAME_KEY, StrV (lower q)) of
        None \<Rightarrow> db_contacts w' = db_contacts w
      | Some contact \<Rightarrow>
          (contact = [] \<and> db_contacts w' = db_contacts w) \<or>
          (\<exists>junkf fl junkv vl v.
             rest = junkf @ fl # junkv @ vl # stdin w' \<and>
             (\<forall>l \<in> set junkf. refused_field l) \<and> \<not> refused_field fl \<and>
             field_of fl = AGE_KEY \<and>
             (\<forall>l \<in> set junkv. py_int (lower l) = Inl ValueError) \<and> py_int (lower vl) = Inr v \<and>
             length (db_contacts w') = length (db_contacts w) \<and>
             (\<forall>j < length (db_contacts w).
                if db_contacts w ! j = contact
                then map_of (db_contacts w' ! j) (field_of fl) = Some (IntV v)
                   \<and> map fst (db_contacts w' ! j) = map fst contact
                   \<and> (\<forall>k. k \<noteq> field_of fl \<longrightarrow> map_of (db_contacts w' ! j) k = map_of contact k)
                else db_contacts w' ! j = db_contacts w ! j)))"
  using assms(1)
proof (cases rule: update_outcome)
  case eof
  then show ?thesis by simp
next
  case (not_found q rest)
  then show ?thesis by (auto simp: truthy_def split: option.splits)
next
  case (failed q rest e)
  then show ?thesis by simp
next
  case (updated q rest contact i n a p m v junkf fl junkv vl)
  from updated(2) have mem: "contact \<in> set (db_contacts w)" by (simp add: find_one_in)
  from updated(3) have i: "map_of contact ID_KEY = Some i"
    and a: "map_of contact AGE_KEY = Some a"
    by (simp_all add: has_fields_def)
  from updated(9) have nr: "\<not> refused_field fl" by (simp add: field_of_not_refused)
  from updated(5) have db: "db_contacts w' =
      map (\<lambda>d. if d = contact then AList.update AGE_KEY (IntV v) d else d) (db_contacts w)"
    by (simp add: update_one_by_id [OF assms(2) mem i])
  have frame: "length (db_contacts w') = length (db_contacts w) \<and>
        (\<forall>j < length (db_contacts w).
           if db_contacts w ! j = contact
           then map_of (db_contacts w' ! j) (field_of fl) = Some (IntV v)
              \<and> map fst (db_contacts w' ! j) = map fst contact
              \<and> (\<forall>k. k \<noteq> field_of fl \<longrightarrow> map_of (db_contacts w' ! j) k = map_of contact k)
           else db_contacts w' ! j = db_contacts w ! j)"
    using update_keeps_other_fields [OF a, of "IntV v"] by (simp add: db updated(9))
  have "\<exists>junkf fl junkv vl v.
             rest = junkf @ fl # junkv @ vl # stdin w' \<and>
             (\<forall>l \<in> set junkf. refused_field l) \<and> \<not> refused_field fl \<and>
             field_of fl = AGE_KEY \<and>
             (\<forall>l \<in> set junkv. py_int (lower l) = Inl ValueError) \<and> py_int (lower vl) = Inr v \<and>
             length (db_contacts w') = length (db_contacts w) \<and>
             (\<forall>j < length (db_contacts w).
                if db_contacts w ! j = contact
                then map_of (db_contacts w' ! j) (field_of fl) = Some (IntV v)
                   \<and> map fst (db_contacts w' ! j) = map fst contact
                   \<and> (\<forall>k. k \<noteq> field_of fl \<longrightarrow> map_of (db_contacts w' ! j) k = map_of contact k)
                else db_contacts w' ! j = db_contacts w ! j)"
    using updated(7,8,9,10,11) nr frame
    by (intro exI [of _ junkf] exI [of _ fl] exI [of _ junkv] exI [of _ vl] exI [of _ v]) blast
  with updated(1,2) show ?thesis by simp
qed

text \<open>
  Claim C6. The line \<open>id\<close> entered as the field is answered by the refusal and the same
  prompt; the loop that reads the field makes no call on the collection and returns
  neither \<open>id\<close> nor the key of the id; no call of \<open>update_one\<close> made by \<open>update\<close>
  sets either; and the ids of the collection after \<open>update\<close> are those before.
\<close>

theorem id_is_never_updated:
  "(stdin w = l # rest \<and> strip (lower l) = ''id'' \<longrightarrow>
      update_field_loop w =
      update_field_loop
        (w\<lparr>stdin := rest,
           stdout := stdout w @ [Prompt ''What field do you want to update? '',
                                 Line ''You can't modify the ID. (It's immutable!)'']\<rparr>))
   \<and> calls (snd (update_field_loop w)) = calls w
   \<and> db_contacts (snd (update_field_loop w)) = db_contacts w
   \<and> (\<forall>f. fst (update_field_loop w) = Inr f \<longrightarrow> f \<noteq> ''id'' \<and> f \<noteq> ID_KEY)
   \<and> (\<exists>new. calls (snd (update w)) = calls w @ new
         \<and> (\<forall>flt field v. Update_one flt (field, v) \<in> set new \<longrightarrow> field \<noteq> ''id'' \<and> field \<noteq> ID_KEY))
   \<and> map (\<lambda>d. map_of d ID_KEY) (db_contacts (snd (update w))) =
     map (\<lambda>d. map_of d ID_KEY) (db_contacts w)"
proof -
  have keys: "f \<in> {NAME_KEY, AGE_KEY, PHONE_KEY, EMAIL_KEY} \<Longrightarrow> f \<noteq> ''id'' \<and> f \<noteq> ID_KEY" for f
    by (auto simp: NAME_KEY_def AGE_KEY_def PHONE_KEY_def EMAIL_KEY_def ID_KEY_def)
  obtain r1 w1 where f: "update_field_loop w = (r1, w1)" by (cases "update_field_loop w")
  note loop = update_field_loop_outcome [OF f]
  obtain r w' where u: "update w = (r, w')" by (cases "update w")
  from u have "(\<exists>new. calls w' = calls w @ new
         \<and> (\<forall>flt field v. Update_one flt (field, v) \<in> set new \<longrightarrow> field \<noteq> ''id'' \<and> field \<noteq> ID_KEY))
      \<and> map (\<lambda>d. map_of d ID_KEY) (db_contacts w') = map (\<lambda>d. map_of d ID_KEY) (db_contacts w)"
  proof (cases rule: update_outcome)
    case (updated q rest contact i n a p m v junkf fl junkv vl)
    from keys [of AGE_KEY] have "AGE_KEY \<noteq> ''id''" "AGE_KEY \<noteq> ID_KEY" by simp_all
    with updated(5,6) show ?thesis by (simp add: update_one_ids)
  qed simp_all
  then have upd: "\<exists>new. calls (snd (update w)) = calls w @ new
         \<and> (\<forall>flt field v. Update_one flt (field, v) \<in> set new \<longrightarrow> field \<noteq> ''id'' \<and> field \<noteq> ID_KEY)"
    and ids: "map (\<lambda>d. map_of d ID_KEY) (db_contacts (snd (update w))) =
      map (\<lambda>d. map_of d ID_KEY) (db_contacts w)"
    by (simp_all add: u)
  show ?thesis
  proof (intro conjI, goal_cases)
    case 1
    show ?case by (blast intro: update_field_loop_id)
  next
    case 2
    from f loop show ?case by simp
  next
    case 3
    from f loop show ?case by simp
  next
    case 4
    from f loop keys show ?case by auto
  next
    case 5
    from upd show ?case .
  next
    case 6
    from ids show ?case .
  qed
qed

theorem update_changes_one_field_of_one_contact_witness:
  "update two_anas = (Inr (), two_anas_updated)
   \<and> unique_ids (db_contacts two_anas)
   \<and> (\<exists>q rest. stdin two_anas = q # rest \<and>
     (case find_one (db_contacts two_anas) (NAME_KEY, StrV (lower q)) of
        None \<Rightarrow> db_contacts two_anas_updated = db_contacts two_anas
      | Some contact \<Rightarrow>
          (contact = [] \<and> db_contacts two_anas_updated = db_contacts two_anas) \<or>
          (\<exists>junkf fl junkv vl v.
             rest = junkf @ fl # junkv @ vl # stdin two_anas_updated \<and>
             (\<forall>l \<in> set junkf. refused_field l) \<and> \<not> refused_field fl \<and>
             field_of fl = AGE_KEY \<and>
             (\<forall>l \<in> set junkv. py_int (lower l) = Inl ValueError) \<and> py_int (lower vl) = Inr v \<and>
             length (db_contacts two_anas_updated) = length (db_contacts two_anas) \<and>
             (\<forall>j < length (db_contacts two_anas).
                if db_contacts two_anas ! j = contact
                then map_of (db_contacts two_anas_updated ! j) (field_of fl) = Some (IntV v)
                   \<and> map fst (db_contacts two_anas_updated ! j) = map fst contact
                   \<and> (\<forall>k. k \<noteq> field_of fl \<longrightarrow>
                         map_of (db_contacts two_anas_updated ! j) k = map_of contact k)
                else db_contacts two_anas_updated ! j = db_contacts two_anas ! j))))"
proof -
  have u: "update two_anas = (Inr (), two_anas_updated)" by code_simp
  have q: "unique_ids (db_contacts two_anas)" by code_simp
  show ?thesis
    by (intro conjI u q update_changes_one_field_of_one_contact [OF u q])
qed

theorem id_is_never_updated_witness:
  "update_field_loop \<lparr>stdin = ['' ID '', ''age''], stdout = [], db_contacts = [ana], calls = []\<rparr> =
   update_field_loop
     \<lparr>stdin = [''age''],
      stdout = [Prompt ''What field do you want to update? '',
                Line ''You can't modify the ID. (It's immutable!)''],
      db_contacts = [ana], calls = []\<rparr>
   \<and> map (\<lambda>d. map_of d ID_KEY)
       (db_contacts (snd (update \<lparr>stdin = [''ana'', '' ID '', ''_id'', ''age'', ''31''], stdout = [],
                                  db_contacts = [ana], calls = []\<rparr>))) =
     map (\<lambda>d. map_of d ID_KEY) [ana]"
proof -
  have l: "strip (lower '' ID '') = ''id''" by code_simp
  from id_is_never_updated [of
      "\<lparr>stdin = ['' ID '', ''age''], stdout = [], db_contacts = [ana], calls = []\<rparr>" "'' ID ''"
      "[''age'']"]
    id_is_never_updated [of
      "\<lparr>stdin = [''ana'', '' ID '', ''_id'', ''age'', ''31''], stdout = [],
        db_contacts = [ana], calls = []\<rparr>"] l
  show ?thesis by simp
qed

section \<open>Showing all contacts\<close>

lemma card_of_has_fields: "card_of contact = Some (Card i n a p m) \<longleftrightarrow> has_fields contact i n a p m"
  by (auto simp: card_of_def has_fields_def split: option.splits val.splits)

lemma card_of_Some: "card_of contact = Some c \<Longrightarrow> \<exists>i n a p m. c = Card i n a p m"
  by (auto simp: card_of_def split: option.splits val.splits)

lemma print_contact_card_of:
  assumes "card_of contact = Some c"
  shows "print_contact contact w = (Inr (), w\<lparr>stdout := stdout w @ [c]\<rparr>)"
proof -
  from card_of_Some [OF assms] obtain i n a p m where c: "c = Card i n a p m" by blast
  with assms have "has_fields contact i n a p m" by (simp add: card_of_has_fields)
  with c show ?thesis by (simp add: print_contact_card)
qed

lemma show_all_loop_cards:
  "map card_of contacts = map Some cards \<Longrightarrow>
   show_all_loop contacts w = (Inr (), w\<lparr>stdout := stdout w @ concat (map (\<lambda>c. [rule29, c]) cards)\<rparr>)"
proof (induction contacts arbitrary: cards w)
  case Nil
  then show ?case by simp
next
  case (Cons contact contacts)
  then obtain c cs where cards: "cards = c # cs" and c: "card_of contact = Some c"
    and cs: "map card_of contacts = map Some cs"
    by (cases cards) auto
  show ?case
    by (simp add: cards and_then_def print_def print_contact_card_of [OF c] Cons.IH [OF cs])
qed

lemma show_all_empty:
  "db_contacts w = [] \<Longrightarrow>
   show_all w =
   (Inr (), w\<lparr>stdout := stdout w @ [rule29, Line ''No data found.'', rule29],
              calls := calls w @ [Count_documents]\<rparr>)"
  by (simp add: show_all_def db_count_documents_def count_documents_def print_def)

lemma show_all_cards:
  assumes "db_contacts w \<noteq> []" and "map card_of (db_contacts w) = map Some cards"
  shows "show_all w =
         (Inr (), w\<lparr>stdout := stdout w @ concat (map (\<lambda>c. [rule29, c]) cards) @ [rule29],
                    calls := calls w @ [Count_documents, Find]\<rparr>)"
proof -
  from assms(2)
  have "show_all_loop (db_contacts w) (w\<lparr>calls := calls w @ [Count_documents, Find]\<rparr>) =
      (Inr (), w\<lparr>calls := calls w @ [Count_documents, Find],
                 stdout := stdout w @ concat (map (\<lambda>c. [rule29, c]) cards)\<rparr>)"
    by (simp add: show_all_loop_cards)
  with assms(1) show ?thesis
    by (simp add: show_all_def db_count_documents_def count_documents_def db_find_def
        find_all_def and_then_def print_def)
qed

lemma deleted_later_simps [simp]:
  "deleted_later d [] = False"
  "deleted_later d (Ins x # ops) = deleted_later d ops"
  "deleted_later d (Del i # ops) = (map_of d ID_KEY = Some i \<or> deleted_later d ops)"
  by (auto simp: deleted_later_def split: option.splits)

lemma unique_ids_distinct: "unique_ids c \<Longrightarrow> distinct c"
  by (simp add: unique_ids_def distinct_map)

lemma set_delete_first_by_id:
  "unique_ids c \<Longrightarrow>
   set (delete_first (ID_KEY, i) c) = {d \<in> set c. map_of d ID_KEY \<noteq> Some i}"
proof (induction c)
  case Nil
  then show ?case by simp
next
  case (Cons d ds)
  then have ds: "unique_ids ds" and d: "map_of d ID_KEY \<notin> (\<lambda>d. map_of d ID_KEY) ` set ds"
    by (simp_all add: unique_ids_def)
  show ?case
  proof (cases "matches (ID_KEY, i) d")
    case True
    with d have "\<forall>x \<in> set ds. map_of x ID_KEY \<noteq> Some i"
      by (force simp: matches_def)
    with True show ?thesis by (auto simp: matches_def)
  next
    case False
    with Cons.IH [OF ds] show ?thesis by (auto simp: matches_def)
  qed
qed

lemma unique_ids_delete_first: "unique_ids c \<Longrightarrow> unique_ids (delete_first flt c)"
proof (induction c)
  case Nil
  then show ?case by simp
next
  case (Cons d ds)
  have "set (delete_first flt ds) \<subseteq> set ds" by (induction ds) auto
  with Cons show ?case by (auto simp: unique_ids_def)
qed

lemma replay_contents:
  "replay ops c0 = Some c \<Longrightarrow> unique_ids c0 \<Longrightarrow>
   unique_ids c \<and> set c = {d \<in> set c0. \<not> deleted_later d ops} \<union> remaining ops"
proof (induction ops c0 rule: replay.induct)
  case (1 c0)
  then show ?case by simp
next
  case (2 d ops c0)
  from "2.prems"(1) obtain r where ins: "insert_one c0 d = Inr (r, c0 @ [d])"
    and rest: "replay ops (c0 @ [d]) = Some c"
    by (auto simp: insert_one_def split: if_splits)
  from unique_ids_insert_one [OF "2.prems"(2) ins] have u: "unique_ids (c0 @ [d])" .
  from "2.IH" [OF ins refl rest u]
  have "unique_ids c" and "set c = {x \<in> set (c0 @ [d]). \<not> deleted_later x ops} \<union> remaining ops"
    by simp_all
  then show ?case by auto
next
  case (3 i ops c0)
  from "3.prems" have rest: "replay ops (delete_one c0 (ID_KEY, i)) = Some c" by simp
  from "3.prems"(2) have u: "unique_ids (delete_one c0 (ID_KEY, i))"
    by (simp add: delete_one_def unique_ids_delete_first)
  from "3.IH" [OF rest u] "3.prems"(2)
  have "unique_ids c"
    and "set c = {x \<in> {d \<in> set c0. map_of d ID_KEY \<noteq> Some i}. \<not> deleted_later x ops} \<union> remaining ops"
    by (simp_all add: delete_one_def set_delete_first_by_id)
  then show ?case by auto
qed

text \<open>
  Claim C7. Let the collection be what a history of accepted inserts and of deletes by
  id has made of the empty collection. When no record inserted remains, \<open>show_all\<close>
  prints the message between two rules, no contact, and does not call \<open>find\<close>.
  Otherwise it prints one card per document of the collection, and these documents are,
  without repetition, the records inserted and not deleted.
\<close>

theorem show_all_lists_the_collection:
  assumes "replay ops [] = Some (db_contacts w)"
  shows "(remaining ops = {} \<longrightarrow>
            show_all w =
            (Inr (), w\<lparr>stdout := stdout w @ [rule29, Line ''No data found.'', rule29],
                       calls := calls w @ [Count_documents]\<rparr>))
       \<and> (remaining ops \<noteq> {} \<and> map card_of (db_contacts w) = map Some cards \<longrightarrow>
            show_all w =
            (Inr (), w\<lparr>stdout := stdout w @ concat (map (\<lambda>c. [rule29, c]) cards) @ [rule29],
                       calls := calls w @ [Count_documents, Find]\<rparr>))
       \<and> set (db_contacts w) = remaining ops \<and> distinct (db_contacts w)"
proof -
  from replay_contents [OF assms]
  have u: "unique_ids (db_contacts w)" and s: "set (db_contacts w) = remaining ops"
    by simp_all
  from s have e: "remaining ops = {} \<longleftrightarrow> db_contacts w = []" by auto
  from u s show ?thesis
    by (auto simp: e show_all_empty show_all_cards unique_ids_distinct)
qed

theorem show_all_lists_the_collection_witness:
  "show_all \<lparr>stdin = [], stdout = [], db_contacts = [], calls = []\<rparr> =
   (Inr (),
    \<lparr>stdin = [], stdout = [rule29, Line ''No data found.'', rule29], db_contacts = [],
     calls = [Count_documents]\<rparr>)
   \<and> show_all \<lparr>stdin = [], stdout = [], db_contacts = [namesake, ana], calls = []\<rparr> =
   (Inr (),
    \<lparr>stdin = [],
     stdout = [rule29, Card (IntV 2) ''ana'' (IntV 52) (StrV ''555-2222'') (StrV ''ana2@x.com''),
               rule29, Card (IntV 1) ''ana'' (IntV 30) (StrV ''555-1111'') (StrV ''ana@x.com''),
               rule29],
     db_contacts = [namesake, ana], calls = [Count_documents, Find]\<rparr>)
   \<and> remaining [Ins ana, Ins namesake, Del (IntV 1), Ins ana] = {namesake, ana}"
proof -
  have r0: "replay [Ins ana, Del (IntV 1)] [] = Some []"
    and e0: "remaining [Ins ana, Del (IntV 1)] = {}"
    by code_simp+
  have r1: "replay [Ins ana, Ins namesake, Del (IntV 1), Ins ana] [] = Some [namesake, ana]"
    and e1: "remaining [Ins ana, Ins namesake, Del (IntV 1), Ins ana] \<noteq> {}"
    by code_simp+
  have c: "map card_of [namesake, ana] =
      map Some [Card (IntV 2) ''ana'' (IntV 52) (StrV ''555-2222'') (StrV ''ana2@x.com''),
                Card (IntV 1) ''ana'' (IntV 30) (StrV ''555-1111'') (StrV ''ana@x.com'')]"
    by code_simp
  from show_all_lists_the_collection [of "[Ins ana, Del (IntV 1)]"
      "\<lparr>stdin = [], stdout = [], db_contacts = [], calls = []\<rparr>"]
    show_all_lists_the_collection [of "[Ins ana, Ins namesake, Del (IntV 1), Ins ana]"
      "\<lparr>stdin = [], stdout = [], db_contacts = [namesake, ana], calls = []\<rparr>"
      "[Card (IntV 2) ''ana'' (IntV 52) (StrV ''555-2222'') (StrV ''ana2@x.com''),
        Card (IntV 1) ''ana'' (IntV 30) (StrV ''555-1111'') (StrV ''ana@x.com'')]"]
    r0 e0 r1 e1 c
  show ?thesis by auto
qed

end
